theory Spec2Isabelle
  imports Complex_Main "HOL-Library.Sublist" "HOL-Library.AList"
begin

section \<open>Values of the program\<close>

text \<open>
  The relay script \<^verbatim>\<open>script3.py\<close> is embedded function by function. A Python \<^verbatim>\<open>str\<close>
  is a sequence of Unicode code points, here a list of numbers; \<open>ascii\<close> writes one from
  an ASCII literal. A \<^verbatim>\<open>datetime\<close> is an integer count of microseconds (the resolution of
  \<^verbatim>\<open>datetime\<close> and \<^verbatim>\<open>timedelta\<close>), so that subtraction and comparison are exact as in
  Python.
\<close>

type_synonym str = "nat list"

definition ascii :: "string \<Rightarrow> str" where
  "ascii s = map of_char s"

type_synonym datetime = int
type_synonym timedelta = int

text \<open>An exception object (a subclass of \<^verbatim>\<open>Exception\<close>) is represented by its message.\<close>

type_synonym exn = string

text \<open>
  The values a configuration variable of \<^verbatim>\<open>config.py\<close> may hold, with Python's truth
  value: \<^verbatim>\<open>None\<close>, \<open>0\<close>, the empty string and the empty list are false.
\<close>

datatype pyval = PyNone | PyInt int | PyStr str | PyList "pyval list"

fun truthy :: "pyval \<Rightarrow> bool" where
  "truthy PyNone = False"
| "truthy (PyInt n) = (n \<noteq> 0)"
| "truthy (PyStr s) = (s \<noteq> [])"
| "truthy (PyList xs) = (xs \<noteq> [])"

text \<open>
  The globals of the loaded module that come from \<^verbatim>\<open>config\<close> (line 3). The two phrase
  variables are held by the strings that iterating them gives, since lines 25 and 28 have
  iterated them before any other statement reads them (see \<open>load_module\<close> below).
\<close>

record config =
  API_ID :: pyval
  API_HASH :: pyval
  SESSION :: pyval
  DESTINATION :: pyval
  STOP_WORDS_DESTINATION :: pyval
  CHATS :: pyval
  KEY_WORDS :: "str list"
  STOP_WORDS :: "str list"

definition FILTER_DURATION :: timedelta where
  "FILTER_DURATION = 24 * 60 * 60 * 1000000"

definition SIMILARITY_THRESHOLD :: rat where
  "SIMILARITY_THRESHOLD = 90"

section \<open>Text normalisation and phrase matching\<close>

text \<open>
  \<^verbatim>\<open>str.lower\<close> is a built-in of Python that follows the Unicode tables. It is a parameter
  \<open>lower\<close> of every function that calls it, so that what is proved holds of the built-in
  itself. \<open>ascii_lower\<close> is what the built-in does on a string of ASCII code points; it
  stands for \<open>lower\<close> where a theorem is applied to ASCII texts.
\<close>

definition ascii_lower :: "str \<Rightarrow> str" where
  "ascii_lower s = map (\<lambda>c. if 65 \<le> c \<and> c \<le> 90 then c + 32 else c) s"

text \<open>\<^verbatim>\<open>str.isspace\<close> on one code point: the code points that Unicode classes as
  whitespace (bidirectional class WS, B or S, or category Zs).\<close>

definition isspace :: "nat \<Rightarrow> bool" where
  "isspace c \<longleftrightarrow>
     c \<in> set [0x09, 0x0A, 0x0B, 0x0C, 0x0D, 0x1C, 0x1D, 0x1E, 0x1F, 0x20, 0x85, 0xA0,
              0x1680, 0x2000, 0x2001, 0x2002, 0x2003, 0x2004, 0x2005, 0x2006, 0x2007,
              0x2008, 0x2009, 0x200A, 0x2028, 0x2029, 0x202F, 0x205F, 0x3000]"

text \<open>Lines 25 and 28: the phrase sets, lowercased once.\<close>

definition STOP_WORDS_SET :: "(str \<Rightarrow> str) \<Rightarrow> config \<Rightarrow> str set" where
  "STOP_WORDS_SET lower cfg = lower ` set (STOP_WORDS cfg)"

definition KEY_WORDS_SET :: "(str \<Rightarrow> str) \<Rightarrow> config \<Rightarrow> str set" where
  "KEY_WORDS_SET lower cfg = lower ` set (KEY_WORDS cfg)"

text \<open>
  \<^verbatim>\<open>s.replace(old, new)\<close>: the occurrences of \<open>old\<close> in \<open>s\<close>, taken from the left and not
  overlapping, are replaced by \<open>new\<close>; an empty \<open>old\<close> occurs before every code point and
  at the end.
\<close>

function replace :: "str \<Rightarrow> str \<Rightarrow> str \<Rightarrow> str" where
  "replace s old new =
     (if old = [] then new @ concat (map (\<lambda>c. c # new) s)
      else if s = [] then []
      else if prefix old s then new @ replace (drop (length old) s) old new
      else hd s # replace (tl s) old new)"
  by pat_completeness auto
termination
  by (relation "measure (\<lambda>(s, old, new). length s)") auto

declare replace.simps [simp del]

text \<open>\<^verbatim>\<open>text.replace(" ", "")\<close>, line 69.\<close>

definition remove_spaces :: "str \<Rightarrow> str" where
  "remove_spaces text = replace text (ascii '' '') []"

text \<open>Python's \<^verbatim>\<open>a in b\<close> on strings is \<^const>\<open>sublist\<close>: \<open>a\<close> occurs contiguously in \<open>b\<close>.\<close>

definition contains_stop_words :: "(str \<Rightarrow> str) \<Rightarrow> config \<Rightarrow> str \<Rightarrow> bool" where
  "contains_stop_words lower cfg message_text =
     (let clean_message_text = remove_spaces (lower message_text)
      in \<exists>stop_word \<in> STOP_WORDS_SET lower cfg.
           sublist (remove_spaces stop_word) clean_message_text)"

text \<open>The test of line 127, on the cleaned text of the message.\<close>

definition any_key_word :: "(str \<Rightarrow> str) \<Rightarrow> config \<Rightarrow> str \<Rightarrow> bool" where
  "any_key_word lower cfg clean_message_text \<longleftrightarrow>
     (\<exists>key_word \<in> KEY_WORDS_SET lower cfg. sublist (remove_spaces key_word) clean_message_text)"

section \<open>Configuration check\<close>

text \<open>The exceptions that end the script before the client runs, each with its message
  (for \<open>ImportError\<close>, the name that could not be imported).\<close>

datatype error = ValueError string | TypeError string | AttributeError string | ImportError string

definition required_globals :: "config \<Rightarrow> (string \<times> pyval) list" where
  "required_globals cfg =
     [(''API_ID'', API_ID cfg),
      (''API_HASH'', API_HASH cfg),
      (''SESSION'', SESSION cfg),
      (''DESTINATION'', DESTINATION cfg),
      (''STOP_WORDS_DESTINATION'', STOP_WORDS_DESTINATION cfg),
      (''CHATS'', CHATS cfg),
      (''KEY_WORDS'', PyList (map PyStr (KEY_WORDS cfg))),
      (''STOP_WORDS'', PyList (map PyStr (STOP_WORDS cfg)))]"

definition config_error_message :: "string \<Rightarrow> string" where
  "config_error_message var_name =
     ''The required config variable '' @ [CHR 0x27] @ var_name @ [CHR 0x27]
       @ '' is not set or is empty''"

fun validate_items :: "(string \<times> pyval) list \<Rightarrow> error + unit" where
  "validate_items [] = Inr ()"
| "validate_items ((var_name, var_value) # items) =
     (if \<not> truthy var_value then Inl (ValueError (config_error_message var_name))
      else validate_items items)"

definition validate_config :: "config \<Rightarrow> error + unit" where
  "validate_config cfg = validate_items (required_globals cfg)"

section \<open>Loading the module\<close>

text \<open>
  \<^verbatim>\<open>config.py\<close> is a module: a dictionary from names to values. The statements of
  \<^verbatim>\<open>script3.py\<close> that run when it is loaded, before the block of line 153, and can raise:
  the import of line 3, which needs the eight names; the construction of the client at
  line 13, which is a call into Telethon and a parameter \<open>client_init\<close> of the model (it
  gets \<open>SESSION\<close>, \<open>API_ID\<close> and \<open>API_HASH\<close>, and returns the exception it raises, if any);
  and the two set comprehensions of lines 25 and 28, which iterate the phrase variables and
  call \<^verbatim>\<open>lower\<close> on every item.
\<close>

type_synonym config_py = "string \<rightharpoonup> pyval"

definition import_name :: "config_py \<Rightarrow> string \<Rightarrow> (pyval \<Rightarrow> error + 'a) \<Rightarrow> error + 'a" where
  "import_name m name rest =
     (case m name of
        None \<Rightarrow> Inl (ImportError name)
      | Some v \<Rightarrow> rest v)"

definition not_iterable :: "string \<Rightarrow> error" where
  "not_iterable type_name =
     TypeError ([CHR 0x27] @ type_name @ [CHR 0x27] @ '' object is not iterable'')"

definition no_lower :: "string \<Rightarrow> error" where
  "no_lower type_name =
     AttributeError ([CHR 0x27] @ type_name @ [CHR 0x27] @ '' object has no attribute ''
       @ [CHR 0x27] @ ''lower'' @ [CHR 0x27])"

text \<open>The items of a list on which \<^verbatim>\<open>word.lower()\<close> is called, in order: the first item
  that is not a string raises.\<close>

fun lower_items :: "pyval list \<Rightarrow> error + str list" where
  "lower_items [] = Inr []"
| "lower_items (PyStr s # items) =
     (case lower_items items of Inl err \<Rightarrow> Inl err | Inr ws \<Rightarrow> Inr (s # ws))"
| "lower_items (PyNone # items) = Inl (no_lower ''NoneType'')"
| "lower_items (PyInt n # items) = Inl (no_lower ''int'')"
| "lower_items (PyList xs # items) = Inl (no_lower ''list'')"

text \<open>\<^verbatim>\<open>{word.lower() for word in WORDS}\<close>: the strings the comprehension calls \<^verbatim>\<open>lower\<close>
  on. Iterating a string gives its code points as strings of length one.\<close>

fun iterate_words :: "pyval \<Rightarrow> error + str list" where
  "iterate_words PyNone = Inl (not_iterable ''NoneType'')"
| "iterate_words (PyInt n) = Inl (not_iterable ''int'')"
| "iterate_words (PyStr s) = Inr (map (\<lambda>c. [c]) s)"
| "iterate_words (PyList items) = lower_items items"

definition load_module ::
  "(pyval \<Rightarrow> pyval \<Rightarrow> pyval \<Rightarrow> error option) \<Rightarrow> config_py \<Rightarrow> error + config" where
  "load_module client_init m =
     import_name m ''DESTINATION'' (\<lambda>destination.
     import_name m ''STOP_WORDS_DESTINATION'' (\<lambda>stop_words_destination.
     import_name m ''API_ID'' (\<lambda>api_id.
     import_name m ''API_HASH'' (\<lambda>api_hash.
     import_name m ''SESSION'' (\<lambda>session.
     import_name m ''CHATS'' (\<lambda>chats.
     import_name m ''KEY_WORDS'' (\<lambda>key_words.
     import_name m ''STOP_WORDS'' (\<lambda>stop_words.
       case client_init session api_id api_hash of
         Some err \<Rightarrow> Inl err
       | None \<Rightarrow>
           (case iterate_words stop_words of
              Inl err \<Rightarrow> Inl err
            | Inr stop_list \<Rightarrow>
                (case iterate_words key_words of
                   Inl err \<Rightarrow> Inl err
                 | Inr key_list \<Rightarrow>
                     Inr \<lparr>API_ID = api_id, API_HASH = api_hash, SESSION = session,
                          DESTINATION = destination,
                          STOP_WORDS_DESTINATION = stop_words_destination,
                          CHATS = chats, KEY_WORDS = key_list, STOP_WORDS = stop_list\<rparr>))))))))))"

text \<open>The first thing Telethon's constructor does with its arguments: it refuses an
  \<^verbatim>\<open>api_id\<close> or \<^verbatim>\<open>api_hash\<close> that is false. It stands for \<open>client_init\<close> at concrete inputs.\<close>

definition telethon_message :: string where
  "telethon_message =
     ''Your API ID or Hash cannot be empty or None. Refer to telethon.rtfd.io for more information.''"

definition api_check :: "pyval \<Rightarrow> pyval \<Rightarrow> pyval \<Rightarrow> error option" where
  "api_check session api_id api_hash =
     (if \<not> truthy api_id \<or> \<not> truthy api_hash then Some (ValueError telethon_message) else None)"

section \<open>The duplicate store\<close>

text \<open>
  \<^verbatim>\<open>message_store\<close> is a dictionary from message text to the time of admission. It is an
  association list in insertion order; \<^const>\<open>AList.update\<close> is the dictionary assignment
  (overwrite the value of a present key, append an absent one) and \<^const>\<open>AList.delete\<close> is
  \<^verbatim>\<open>del\<close>. A dictionary holds each key once.
\<close>

type_synonym message_store = "(str \<times> datetime) list"

definition wf_store :: "message_store \<Rightarrow> bool" where
  "wf_store store \<longleftrightarrow> distinct (map fst store)"

text \<open>
  \<^verbatim>\<open>fuzz.ratio\<close> belongs to the rapidfuzz library and is a parameter of the model: a
  score for two strings, compared with the threshold.
\<close>

type_synonym ratio_fn = "str \<Rightarrow> str \<Rightarrow> rat"

text \<open>The loop of \<^verbatim>\<open>is_similar\<close> over the keys, returning at the first match.\<close>

fun is_similar_keys :: "ratio_fn \<Rightarrow> str list \<Rightarrow> str \<Rightarrow> bool" where
  "is_similar_keys ratio [] message_text = False"
| "is_similar_keys ratio (stored_message # keys) message_text =
     (let similarity = ratio stored_message message_text
      in if similarity \<ge> SIMILARITY_THRESHOLD then True
         else is_similar_keys ratio keys message_text)"

definition is_similar :: "ratio_fn \<Rightarrow> message_store \<Rightarrow> str \<Rightarrow> bool" where
  "is_similar ratio store message_text = is_similar_keys ratio (map fst store) message_text"

definition remove_old_messages :: "datetime \<Rightarrow> message_store \<Rightarrow> message_store" where
  "remove_old_messages current_time store =
     (let to_remove = map fst (filter (\<lambda>(msg, timestamp). current_time - timestamp > FILTER_DURATION) store)
      in fold AList.delete to_remove store)"

section \<open>The message handler\<close>

record event =
  chat_id :: int
  message_text :: "str option"

text \<open>What one call of the handler reads from outside: the clock in
  \<^verbatim>\<open>remove_old_messages\<close> (line 88), the clock at admission (line 129), and whether the
  call of \<^verbatim>\<open>client.forward_messages\<close> raises.\<close>

record env =
  now_sweep :: datetime
  now_admit :: datetime
  forward_raises :: "exn option"

text \<open>The return points of the handler, and what it does to the outside, in order.
  \<open>Log\<close> is a call of \<^verbatim>\<open>log_with_time\<close>, which stamps the line with the current time.\<close>

datatype outcome =
  DropNoText | ForwardToStopDestination | DropDuplicate | ForwardToPrimaryDestination
  | DropNoKeyWords

datatype log_line =
  Received int | NoText | StopWordsForwarded | SimilarFiltered | Forwarded str
  | NoKeyWords | ErrorLine exn

datatype effect = Log log_line | ForwardMessages pyval event | Sleep nat

record handled =
  branch :: outcome
  store_after :: message_store
  effects :: "effect list"
  raised :: "exn option"

text \<open>\<^verbatim>\<open>await client.forward_messages(dest, event.message)\<close> followed by the statements
  \<open>rest\<close>: the call is made, and when it raises the rest is skipped.\<close>

definition forward_then :: "env \<Rightarrow> pyval \<Rightarrow> event \<Rightarrow> effect list \<Rightarrow> effect list \<times> exn option" where
  "forward_then e dest ev rest =
     (case forward_raises e of
        None \<Rightarrow> (ForwardMessages dest ev # rest, None)
      | Some ex \<Rightarrow> ([ForwardMessages dest ev], Some ex))"

text \<open>The body of the \<^verbatim>\<open>try\<close> statement, lines 102 to 135.\<close>

definition try_body :: "(str \<Rightarrow> str) \<Rightarrow> config \<Rightarrow> ratio_fn \<Rightarrow> env \<Rightarrow> event \<Rightarrow> message_store \<Rightarrow> handled" where
  "try_body lower cfg ratio e ev store =
     (let received = Log (Received (chat_id ev)) in
      case message_text ev of
        None \<Rightarrow>
          \<lparr>branch = DropNoText, store_after = store,
           effects = [received, Log NoText], raised = None\<rparr>
      | Some text \<Rightarrow>
          if text = [] then
            \<lparr>branch = DropNoText, store_after = store,
             effects = [received, Log NoText], raised = None\<rparr>
          else
            let store1 = remove_old_messages (now_sweep e) store in
            if contains_stop_words lower cfg text then
              let (fx, ex) = forward_then e (STOP_WORDS_DESTINATION cfg) ev [Log StopWordsForwarded]
              in \<lparr>branch = ForwardToStopDestination, store_after = store1,
                  effects = received # fx, raised = ex\<rparr>
            else if is_similar ratio store1 text then
              \<lparr>branch = DropDuplicate, store_after = store1,
               effects = [received, Log SimilarFiltered], raised = None\<rparr>
            else
              let clean_message_text = remove_spaces (lower text) in
              if any_key_word lower cfg clean_message_text then
                let store2 = AList.update text (now_admit e) store1;
                    (fx, ex) = forward_then e (DESTINATION cfg) ev [Log (Forwarded text), Sleep 2]
                in \<lparr>branch = ForwardToPrimaryDestination, store_after = store2,
                    effects = received # fx, raised = ex\<rparr>
              else
                \<lparr>branch = DropNoKeyWords, store_after = store1,
                 effects = [received, Log NoKeyWords], raised = None\<rparr>)"

text \<open>The handler: the body, and the \<^verbatim>\<open>except Exception\<close> clause of lines 137 to 140,
  which logs the exception and sleeps 60 seconds. Nothing is raised to the caller.\<close>

definition new_message_handler ::
  "(str \<Rightarrow> str) \<Rightarrow> config \<Rightarrow> ratio_fn \<Rightarrow> env \<Rightarrow> event \<Rightarrow> message_store \<Rightarrow> handled" where
  "new_message_handler lower cfg ratio e ev store =
     (let r = try_body lower cfg ratio e ev store in
      case raised r of
        None \<Rightarrow> r
      | Some ex \<Rightarrow> r\<lparr>effects := effects r @ [Log (ErrorLine ex), Sleep 60], raised := None\<rparr>)"

section \<open>The event loop and the script\<close>

text \<open>
  The client hands every new message of the watched chats to the handler, each call as a
  task of its own: line 13 builds the client without \<^verbatim>\<open>sequential_updates\<close>. A task runs
  until it waits for the forward call or for a sleep, and other tasks run meanwhile. The
  handler reads and writes \<^verbatim>\<open>message_store\<close> before its first wait, so the store sees
  the calls one after another, in the order in which the tasks start. \<open>run\<close> gives the
  result of every call in that order, each on the store the call before left, and
  \<open>run_store\<close> the store after the last one. The effects of different calls are not laid
  end to end by the program: what it does in time is an interleaving of the effects of its
  calls that keeps the order within each call.
\<close>

fun run ::
  "(str \<Rightarrow> str) \<Rightarrow> config \<Rightarrow> ratio_fn \<Rightarrow> (env \<times> event) list \<Rightarrow> message_store \<Rightarrow> handled list" where
  "run lower cfg ratio [] store = []"
| "run lower cfg ratio ((e, ev) # steps) store =
     (let r = new_message_handler lower cfg ratio e ev store
      in r # run lower cfg ratio steps (store_after r))"

fun run_store ::
  "(str \<Rightarrow> str) \<Rightarrow> config \<Rightarrow> ratio_fn \<Rightarrow> (env \<times> event) list \<Rightarrow> message_store \<Rightarrow> message_store" where
  "run_store lower cfg ratio [] store = store"
| "run_store lower cfg ratio ((e, ev) # steps) store =
     run_store lower cfg ratio steps (store_after (new_message_handler lower cfg ratio e ev store))"

text \<open>\<open>interleaved xs ys zs\<close>: the sequence \<open>zs\<close> is made of \<open>xs\<close> and \<open>ys\<close>, each in its own
  order.\<close>

fun interleaved :: "'a list \<Rightarrow> 'a list \<Rightarrow> 'a list \<Rightarrow> bool" where
  "interleaved [] ys zs \<longleftrightarrow> zs = ys"
| "interleaved (x # xs) [] zs \<longleftrightarrow> zs = x # xs"
| "interleaved (x # xs) (y # ys) [] \<longleftrightarrow> False"
| "interleaved (x # xs) (y # ys) (z # zs) \<longleftrightarrow>
     (z = x \<and> interleaved xs (y # ys) zs) \<or> (z = y \<and> interleaved (x # xs) ys zs)"

text \<open>The script, from the first line to the last: the module is loaded, then the block of
  lines 153 to 157 checks the configuration and runs the client, starting from the empty
  store of line 16.\<close>

definition script ::
  "(str \<Rightarrow> str) \<Rightarrow> ratio_fn \<Rightarrow> (pyval \<Rightarrow> pyval \<Rightarrow> pyval \<Rightarrow> error option) \<Rightarrow> config_py
     \<Rightarrow> (env \<times> event) list \<Rightarrow> error + handled list" where
  "script lower ratio client_init m steps =
     (case load_module client_init m of
        Inl err \<Rightarrow> Inl err
      | Inr cfg \<Rightarrow>
          (case validate_config cfg of
             Inl err \<Rightarrow> Inl err
           | Inr _ \<Rightarrow> Inr (run lower cfg ratio steps [])))"

section \<open>A similarity score\<close>

text \<open>
  The score that rapidfuzz documents for \<^verbatim>\<open>fuzz.ratio\<close>, in exact arithmetic: the
  normalised Indel similarity, \<open>100 * (1 - d / (|s1| + |s2|))\<close> with
  \<open>d = |s1| + |s2| - 2 * lcs\<close> and \<open>lcs\<close> the length of a longest common subsequence; two
  empty strings score 100. It instantiates the parameter \<open>ratio\<close> at concrete inputs.
\<close>

fun lcs_length :: "str \<Rightarrow> str \<Rightarrow> nat" where
  "lcs_length [] s2 = 0"
| "lcs_length (c1 # s1) [] = 0"
| "lcs_length (c1 # s1) (c2 # s2) =
     (if c1 = c2 then Suc (lcs_length s1 s2)
      else max (lcs_length s1 (c2 # s2)) (lcs_length (c1 # s1) s2))"

definition indel_distance :: "str \<Rightarrow> str \<Rightarrow> nat" where
  "indel_distance s1 s2 = length s1 + length s2 - 2 * lcs_length s1 s2"

definition fuzz_ratio :: ratio_fn where
  "fuzz_ratio s1 s2 =
     (let maximum = length s1 + length s2;
          norm_dist = (if maximum = 0 then 0 else of_nat (indel_distance s1 s2) / of_nat maximum)
      in (1 - norm_dist) * 100)"

text \<open>The scenario of the specification: chat 100 is watched, \<open>scam\<close> is the stop
  phrase and \<open>deal\<close> the key phrase. \<open>scenario_py\<close> is the \<^verbatim>\<open>config.py\<close> and
  \<open>scenario_config\<close> the globals it gives.\<close>

definition scenario_py :: config_py where
  "scenario_py =
     map_of [(''API_ID'', PyInt 12345), (''API_HASH'', PyStr (ascii ''0123abcd'')),
             (''SESSION'', PyStr (ascii ''relay'')), (''DESTINATION'', PyInt 200),
             (''STOP_WORDS_DESTINATION'', PyInt 300), (''CHATS'', PyList [PyInt 100]),
             (''KEY_WORDS'', PyList [PyStr (ascii ''deal'')]),
             (''STOP_WORDS'', PyList [PyStr (ascii ''scam'')])]"

definition scenario_config :: config where
  "scenario_config =
     \<lparr>API_ID = PyInt 12345, API_HASH = PyStr (ascii ''0123abcd''),
      SESSION = PyStr (ascii ''relay''),
      DESTINATION = PyInt 200, STOP_WORDS_DESTINATION = PyInt 300,
      CHATS = PyList [PyInt 100], KEY_WORDS = [ascii ''deal''], STOP_WORDS = [ascii ''scam'']\<rparr>"

section \<open>Invariants of the store\<close>

text \<open>Every stored text was admitted by the key-phrase branch: it is not empty and holds
  no stop phrase, and each text is stored once.\<close>

definition admitted_only :: "(str \<Rightarrow> str) \<Rightarrow> config \<Rightarrow> message_store \<Rightarrow> bool" where
  "admitted_only lower cfg store \<longleftrightarrow>
     wf_store store \<and> (\<forall>s \<in> fst ` set store. s \<noteq> [] \<and> \<not> contains_stop_words lower cfg s)"

text \<open>Any two different stored texts score below the threshold against each other.\<close>

definition pairwise_dissimilar :: "ratio_fn \<Rightarrow> message_store \<Rightarrow> bool" where
  "pairwise_dissimilar ratio store \<longleftrightarrow>
     (\<forall>s t. s \<in> fst ` set store \<longrightarrow> t \<in> fst ` set store \<longrightarrow> s \<noteq> t \<longrightarrow> ratio s t < 90)"

section \<open>Facts about the store\<close>

lemma is_similar_keys_iff:
  "is_similar_keys ratio keys t \<longleftrightarrow> (\<exists>s \<in> set keys. ratio s t \<ge> SIMILARITY_THRESHOLD)"
  by (induction keys) (auto simp: Let_def)

lemma is_similar_iff:
  "is_similar ratio store t \<longleftrightarrow> (\<exists>s \<in> fst ` set store. ratio s t \<ge> SIMILARITY_THRESHOLD)"
  by (simp add: is_similar_def is_similar_keys_iff)

lemma fold_delete_filter:
  "fold AList.delete ks store = filter (\<lambda>p. fst p \<notin> set ks) store"
proof (induction ks arbitrary: store)
  case Nil
  then show ?case by simp
next
  case (Cons k ks)
  have "AList.delete k store = filter (\<lambda>p. fst p \<noteq> k) store"
    by (auto simp: AList.delete_eq intro: filter_cong)
  then show ?case using Cons.IH [of "AList.delete k store"]
    by (auto intro: filter_cong)
qed

lemma remove_old_messages_filter:
  assumes "wf_store store"
  shows "remove_old_messages now store =
           filter (\<lambda>(msg, timestamp). \<not> now - timestamp > FILTER_DURATION) store"
proof -
  have "fst p \<in> fst ` {q \<in> set store. case q of (m, t) \<Rightarrow> now - t > FILTER_DURATION}
          \<longleftrightarrow> (case p of (m, t) \<Rightarrow> now - t > FILTER_DURATION)"
    if "p \<in> set store" for p
  proof
    assume "fst p \<in> fst ` {q \<in> set store. case q of (m, t) \<Rightarrow> now - t > FILTER_DURATION}"
    then obtain q where q: "q \<in> set store" "fst q = fst p"
      "case q of (m, t) \<Rightarrow> now - t > FILTER_DURATION" by auto
    from assms q(1,2) that have "q = p"
      unfolding wf_store_def by (metis eq_key_imp_eq_value prod.collapse)
    with q(3) show "case p of (m, t) \<Rightarrow> now - t > FILTER_DURATION" by simp
  next
    assume "case p of (m, t) \<Rightarrow> now - t > FILTER_DURATION"
    with that show "fst p \<in> fst ` {q \<in> set store. case q of (m, t) \<Rightarrow> now - t > FILTER_DURATION}"
      by auto
  qed
  then show ?thesis
    unfolding remove_old_messages_def Let_def fold_delete_filter
    by (auto intro!: filter_cong)
qed

lemma remove_old_messages_subset: "set (remove_old_messages now store) \<subseteq> set store"
  by (simp add: remove_old_messages_def fold_delete_filter)

lemma keys_remove_old_messages:
  "fst ` set (remove_old_messages now store) \<subseteq> fst ` set store"
  using remove_old_messages_subset [of now store] by blast

lemma wf_store_remove_old: "wf_store store \<Longrightarrow> wf_store (remove_old_messages now store)"
  by (simp add: remove_old_messages_def fold_delete_filter wf_store_def distinct_map_filter)

lemma wf_store_update: "wf_store store \<Longrightarrow> wf_store (AList.update k v store)"
  by (simp add: wf_store_def distinct_update)

lemma wf_store_map_of: "wf_store store \<Longrightarrow> (s, T) \<in> set store \<Longrightarrow> map_of store s = Some T"
  by (simp add: wf_store_def)

lemma retained_entry:
  assumes "wf_store store" "(s, T) \<in> set store" "\<not> now - T > FILTER_DURATION"
  shows "(s, T) \<in> set (remove_old_messages now store)"
  using assms by (simp add: remove_old_messages_filter)

lemma is_similar_retained:
  assumes "wf_store store"
  shows "is_similar ratio (remove_old_messages now store) t
      \<longleftrightarrow> (\<exists>(s, timestamp) \<in> set store. \<not> now - timestamp > FILTER_DURATION \<and> ratio s t \<ge> 90)"
  unfolding is_similar_iff remove_old_messages_filter [OF assms] SIMILARITY_THRESHOLD_def
  by force

section \<open>The return points of the handler\<close>

lemma handler_no_text:
  assumes "message_text ev = None \<or> message_text ev = Some []"
  shows "new_message_handler lower cfg ratio e ev store =
           \<lparr>branch = DropNoText, store_after = store,
            effects = [Log (Received (chat_id ev)), Log NoText], raised = None\<rparr>"
  using assms by (auto simp: new_message_handler_def try_body_def)

lemma handler_stop:
  assumes "message_text ev = Some t" "t \<noteq> []" "contains_stop_words lower cfg t"
  shows "new_message_handler lower cfg ratio e ev store =
           \<lparr>branch = ForwardToStopDestination,
            store_after = remove_old_messages (now_sweep e) store,
            effects = Log (Received (chat_id ev)) # ForwardMessages (STOP_WORDS_DESTINATION cfg) ev #
              (case forward_raises e of
                 None \<Rightarrow> [Log StopWordsForwarded]
               | Some ex \<Rightarrow> [Log (ErrorLine ex), Sleep 60]),
            raised = None\<rparr>"
  using assms
  by (simp add: new_message_handler_def try_body_def forward_then_def split: option.split)

lemma handler_duplicate:
  assumes "message_text ev = Some t" "t \<noteq> []" "\<not> contains_stop_words lower cfg t"
    "is_similar ratio (remove_old_messages (now_sweep e) store) t"
  shows "new_message_handler lower cfg ratio e ev store =
           \<lparr>branch = DropDuplicate,
            store_after = remove_old_messages (now_sweep e) store,
            effects = [Log (Received (chat_id ev)), Log SimilarFiltered], raised = None\<rparr>"
  using assms by (simp add: new_message_handler_def try_body_def)

lemma handler_primary:
  assumes "message_text ev = Some t" "t \<noteq> []" "\<not> contains_stop_words lower cfg t"
    "\<not> is_similar ratio (remove_old_messages (now_sweep e) store) t"
    "any_key_word lower cfg (remove_spaces (lower t))"
  shows "new_message_handler lower cfg ratio e ev store =
           \<lparr>branch = ForwardToPrimaryDestination,
            store_after = AList.update t (now_admit e) (remove_old_messages (now_sweep e) store),
            effects = Log (Received (chat_id ev)) # ForwardMessages (DESTINATION cfg) ev #
              (case forward_raises e of
                 None \<Rightarrow> [Log (Forwarded t), Sleep 2]
               | Some ex \<Rightarrow> [Log (ErrorLine ex), Sleep 60]),
            raised = None\<rparr>"
  using assms
  by (simp add: new_message_handler_def try_body_def forward_then_def split: option.split)

lemma handler_no_key_words:
  assumes "message_text ev = Some t" "t \<noteq> []" "\<not> contains_stop_words lower cfg t"
    "\<not> is_similar ratio (remove_old_messages (now_sweep e) store) t"
    "\<not> any_key_word lower cfg (remove_spaces (lower t))"
  shows "new_message_handler lower cfg ratio e ev store =
           \<lparr>branch = DropNoKeyWords,
            store_after = remove_old_messages (now_sweep e) store,
            effects = [Log (Received (chat_id ev)), Log NoKeyWords], raised = None\<rparr>"
  using assms by (simp add: new_message_handler_def try_body_def)

text \<open>The five return points cover every call.\<close>

lemma handler_cases:
  obtains (no_text) "message_text ev = None \<or> message_text ev = Some []"
  | (stop) t where "message_text ev = Some t" "t \<noteq> []" "contains_stop_words lower cfg t"
  | (duplicate) t where "message_text ev = Some t" "t \<noteq> []" "\<not> contains_stop_words lower cfg t"
      "is_similar ratio (remove_old_messages (now_sweep e) store) t"
  | (primary) t where "message_text ev = Some t" "t \<noteq> []" "\<not> contains_stop_words lower cfg t"
      "\<not> is_similar ratio (remove_old_messages (now_sweep e) store) t"
      "any_key_word lower cfg (remove_spaces (lower t))"
  | (no_key_words) t where "message_text ev = Some t" "t \<noteq> []" "\<not> contains_stop_words lower cfg t"
      "\<not> is_similar ratio (remove_old_messages (now_sweep e) store) t"
      "\<not> any_key_word lower cfg (remove_spaces (lower t))"
  by (cases "message_text ev") auto

lemma handler_store_cases:
  obtains (same) "store_after (new_message_handler lower cfg ratio e ev store) = store"
  | (swept) "store_after (new_message_handler lower cfg ratio e ev store)
               = remove_old_messages (now_sweep e) store"
  | (admitted) t where "message_text ev = Some t" "t \<noteq> []" "\<not> contains_stop_words lower cfg t"
      "\<not> is_similar ratio (remove_old_messages (now_sweep e) store) t"
      "branch (new_message_handler lower cfg ratio e ev store) = ForwardToPrimaryDestination"
      "store_after (new_message_handler lower cfg ratio e ev store)
         = AList.update t (now_admit e) (remove_old_messages (now_sweep e) store)"
proof (cases rule: handler_cases [where lower = lower and ev = ev and cfg = cfg and ratio = ratio and e = e and store = store])
  case no_text
  from handler_no_text [OF this] show ?thesis by (intro same) simp
next
  case (stop t)
  from handler_stop [OF this] show ?thesis by (intro swept) simp
next
  case (duplicate t)
  from handler_duplicate [OF this] show ?thesis by (intro swept) simp
next
  case (primary t)
  from handler_primary [OF this] primary show ?thesis by (intro admitted [of t]) simp_all
next
  case (no_key_words t)
  from handler_no_key_words [OF this] show ?thesis by (intro swept) simp
qed

lemma handler_text_store:
  assumes "message_text ev = Some t" "t \<noteq> []"
  shows "store_after (new_message_handler lower cfg ratio e ev store) = remove_old_messages (now_sweep e) store
       \<or> store_after (new_message_handler lower cfg ratio e ev store)
            = AList.update t (now_admit e) (remove_old_messages (now_sweep e) store)"
proof (cases rule: handler_cases [where lower = lower and ev = ev and cfg = cfg and ratio = ratio and e = e and store = store])
  case no_text
  with assms show ?thesis by simp
next
  case (stop t)
  from handler_stop [OF this] show ?thesis by simp
next
  case (duplicate t)
  from handler_duplicate [OF this] show ?thesis by simp
next
  case (primary t')
  from handler_primary [OF this] primary assms show ?thesis by simp
next
  case (no_key_words t)
  from handler_no_key_words [OF this] show ?thesis by simp
qed

lemma handler_duplicate_iff:
  assumes "message_text ev = Some t" "t \<noteq> []"
  shows "branch (new_message_handler lower cfg ratio e ev store) = DropDuplicate
         \<longleftrightarrow> \<not> contains_stop_words lower cfg t
             \<and> is_similar ratio (remove_old_messages (now_sweep e) store) t"
proof (cases rule: handler_cases [where lower = lower and ev = ev and cfg = cfg and ratio = ratio and e = e and store = store])
  case no_text
  with assms show ?thesis by simp
next
  case (stop t')
  from handler_stop [OF this] stop assms show ?thesis by simp
next
  case (duplicate t')
  from handler_duplicate [OF this] duplicate assms show ?thesis by simp
next
  case (primary t')
  from handler_primary [OF this] primary assms show ?thesis by simp
next
  case (no_key_words t')
  from handler_no_key_words [OF this] no_key_words assms show ?thesis by simp
qed

section \<open>Exceptions and delays\<close>

lemma try_body_raised:
  "raised (try_body lower cfg ratio e ev store) = Some ex
   \<longleftrightarrow> forward_raises e = Some ex
       \<and> branch (try_body lower cfg ratio e ev store)
           \<in> {ForwardToStopDestination, ForwardToPrimaryDestination}"
  by (auto simp: try_body_def forward_then_def Let_def split: option.splits)

lemma handler_branch: 
  "branch (new_message_handler lower cfg ratio e ev store) = branch (try_body lower cfg ratio e ev store)"
  by (simp add: new_message_handler_def Let_def split: option.splits)

lemma handler_raised: "raised (new_message_handler lower cfg ratio e ev store) = None"
  by (simp add: new_message_handler_def Let_def split: option.splits)

lemma handler_effects_on_error:
  assumes "forward_raises e = Some ex"
    and "branch (new_message_handler lower cfg ratio e ev store)
           \<in> {ForwardToStopDestination, ForwardToPrimaryDestination}"
  shows "effects (new_message_handler lower cfg ratio e ev store)
           = [Log (Received (chat_id ev)),
              ForwardMessages (if branch (new_message_handler lower cfg ratio e ev store)
                                  = ForwardToStopDestination
                               then STOP_WORDS_DESTINATION cfg else DESTINATION cfg) ev,
              Log (ErrorLine ex), Sleep 60]"
proof (cases rule: handler_cases [where lower = lower and ev = ev and cfg = cfg and ratio = ratio and e = e and store = store])
  case no_text
  from handler_no_text [OF this] assms show ?thesis by simp
next
  case (stop t)
  from handler_stop [OF this] assms show ?thesis by simp
next
  case (duplicate t)
  from handler_duplicate [OF this] assms show ?thesis by simp
next
  case (primary t)
  from handler_primary [OF this] assms show ?thesis by simp
next
  case (no_key_words t)
  from handler_no_key_words [OF this] assms show ?thesis by simp
qed

lemma handler_no_cooldown:
  assumes "forward_raises e = None
         \<or> branch (new_message_handler lower cfg ratio e ev store)
             \<notin> {ForwardToStopDestination, ForwardToPrimaryDestination}"
  shows "Sleep 60 \<notin> set (effects (new_message_handler lower cfg ratio e ev store))"
proof (cases rule: handler_cases [where lower = lower and ev = ev and cfg = cfg and ratio = ratio and e = e and store = store])
  case no_text
  from handler_no_text [OF this] assms show ?thesis by simp
next
  case (stop t)
  from handler_stop [OF this] assms show ?thesis by auto
next
  case (duplicate t)
  from handler_duplicate [OF this] assms show ?thesis by simp
next
  case (primary t)
  from handler_primary [OF this] assms show ?thesis by auto
next
  case (no_key_words t)
  from handler_no_key_words [OF this] assms show ?thesis by simp
qed

lemma handler_pacing:
  assumes "branch (new_message_handler lower cfg ratio e ev store) = ForwardToPrimaryDestination"
    and "forward_raises e = None"
  shows "\<exists>t. message_text ev = Some t
           \<and> effects (new_message_handler lower cfg ratio e ev store)
               = [Log (Received (chat_id ev)), ForwardMessages (DESTINATION cfg) ev,
                  Log (Forwarded t), Sleep 2]"
proof (cases rule: handler_cases [where lower = lower and ev = ev and cfg = cfg and ratio = ratio and e = e and store = store])
  case no_text
  from handler_no_text [OF this] assms show ?thesis by simp
next
  case (stop t)
  from handler_stop [OF this] assms show ?thesis by simp
next
  case (duplicate t)
  from handler_duplicate [OF this] assms show ?thesis by simp
next
  case (primary t)
  from handler_primary [OF this] primary(1) assms show ?thesis by simp
next
  case (no_key_words t)
  from handler_no_key_words [OF this] assms show ?thesis by simp
qed

lemma handler_no_pacing:
  assumes "branch (new_message_handler lower cfg ratio e ev store) \<noteq> ForwardToPrimaryDestination
         \<or> forward_raises e \<noteq> None"
  shows "Sleep 2 \<notin> set (effects (new_message_handler lower cfg ratio e ev store))"
proof (cases rule: handler_cases [where lower = lower and ev = ev and cfg = cfg and ratio = ratio and e = e and store = store])
  case no_text
  from handler_no_text [OF this] show ?thesis by simp
next
  case (stop t)
  from handler_stop [OF this] show ?thesis by (simp split: option.split)
next
  case (duplicate t)
  from handler_duplicate [OF this] show ?thesis by simp
next
  case (primary t)
  from handler_primary [OF this] assms show ?thesis by auto
next
  case (no_key_words t)
  from handler_no_key_words [OF this] show ?thesis by simp
qed

section \<open>The store along a run\<close>

lemma run_store_invariant:
  assumes step: "\<And>e ev st. P st \<Longrightarrow> P (store_after (new_message_handler lower cfg ratio e ev st))"
    and init: "P store"
  shows "P (run_store lower cfg ratio steps store)"
  using init
proof (induction steps arbitrary: store)
  case Nil
  then show ?case by simp
next
  case (Cons a steps)
  obtain e ev where a: "a = (e, ev)" by (cases a)
  from Cons.prems have "P (store_after (new_message_handler lower cfg ratio e ev store))"
    by (rule step)
  then show ?case unfolding a by (simp add: Cons.IH)
qed

lemma length_run: "length (run lower cfg ratio steps store) = length steps"
  by (induction steps arbitrary: store) (auto simp: Let_def)

lemma admitted_only_handler:
  assumes "admitted_only lower cfg store"
  shows "admitted_only lower cfg (store_after (new_message_handler lower cfg ratio e ev store))"
proof (cases rule: handler_store_cases [where lower = lower and ev = ev and cfg = cfg and ratio = ratio and e = e and store = store])
  case same
  with assms show ?thesis by simp
next
  case swept
  from assms have "wf_store (remove_old_messages (now_sweep e) store)"
    by (simp add: admitted_only_def wf_store_remove_old)
  moreover from assms keys_remove_old_messages [of "now_sweep e" store]
  have "\<forall>s \<in> fst ` set (remove_old_messages (now_sweep e) store).
          s \<noteq> [] \<and> \<not> contains_stop_words lower cfg s"
    unfolding admitted_only_def by blast
  ultimately show ?thesis unfolding admitted_only_def swept by simp
next
  case (admitted t)
  let ?kept = "remove_old_messages (now_sweep e) store"
  have wf: "wf_store (AList.update t (now_admit e) ?kept)"
    using assms by (simp add: admitted_only_def wf_store_remove_old wf_store_update)
  have "s \<noteq> [] \<and> \<not> contains_stop_words lower cfg s"
    if "s \<in> fst ` set (AList.update t (now_admit e) ?kept)" for s
  proof -
    from that have "s = t \<or> s \<in> fst ` set ?kept" by (simp add: dom_update)
    then show ?thesis
    proof
      assume "s = t"
      with admitted show ?thesis by simp
    next
      assume "s \<in> fst ` set ?kept"
      with keys_remove_old_messages have "s \<in> fst ` set store" by blast
      with assms show ?thesis unfolding admitted_only_def by blast
    qed
  qed
  with wf admitted(6) show ?thesis unfolding admitted_only_def by simp
qed

lemma admitted_only_run_store: "admitted_only lower cfg (run_store lower cfg ratio steps [])"
proof (rule run_store_invariant)
  show "admitted_only lower cfg []" by (simp add: admitted_only_def wf_store_def)
qed (rule admitted_only_handler)

lemma pairwise_dissimilar_mono:
  assumes sub: "fst ` set store' \<subseteq> fst ` set store"
    and inv: "pairwise_dissimilar ratio store"
  shows "pairwise_dissimilar ratio store'"
  unfolding pairwise_dissimilar_def
proof (intro allI impI)
  fix s t
  assume "s \<in> fst ` set store'" and "t \<in> fst ` set store'" and "s \<noteq> t"
  with sub have "s \<in> fst ` set store" and "t \<in> fst ` set store" and "s \<noteq> t"
    by (simp_all add: subsetD)
  with inv show "ratio s t < 90"
    unfolding pairwise_dissimilar_def by blast
qed

lemma pairwise_dissimilar_handler:
  assumes sym: "\<forall>a b. ratio a b = ratio b a" and inv: "pairwise_dissimilar ratio store"
  shows "pairwise_dissimilar ratio (store_after (new_message_handler lower cfg ratio e ev store))"
proof (cases rule: handler_store_cases [where lower = lower and ev = ev and cfg = cfg and ratio = ratio and e = e and store = store])
  case same
  with inv show ?thesis by simp
next
  case swept
  from keys_remove_old_messages inv
  have "pairwise_dissimilar ratio (remove_old_messages (now_sweep e) store)"
    by (rule pairwise_dissimilar_mono)
  with swept show ?thesis by simp
next
  case (admitted t)
  let ?kept = "remove_old_messages (now_sweep e) store"
  from keys_remove_old_messages inv have kept: "pairwise_dissimilar ratio ?kept"
    by (rule pairwise_dissimilar_mono)
  have new: "ratio s t < 90" if "s \<in> fst ` set ?kept" for s
  proof -
    from admitted(4) that have "\<not> ratio s t \<ge> 90"
      unfolding is_similar_iff SIMILARITY_THRESHOLD_def by blast
    then show ?thesis by simp
  qed
  have "ratio a b < 90"
    if a: "a \<in> fst ` set (AList.update t (now_admit e) ?kept)"
      and b: "b \<in> fst ` set (AList.update t (now_admit e) ?kept)" and ab: "a \<noteq> b" for a b
  proof -
    from a have a': "a = t \<or> a \<in> fst ` set ?kept" by (simp add: dom_update del: image_iff)
    from b have b': "b = t \<or> b \<in> fst ` set ?kept" by (simp add: dom_update del: image_iff)
    show ?thesis
    proof (cases "a = t")
      case True
      with ab b' have "b \<in> fst ` set ?kept" by simp
      then have "ratio b t < 90" by (rule new)
      with sym True show ?thesis by simp
    next
      case False
      with a' have a_kept: "a \<in> fst ` set ?kept" by simp
      show ?thesis
      proof (cases "b = t")
        case True
        with a_kept new show ?thesis by simp
      next
        case False
        with b' have "b \<in> fst ` set ?kept" by simp
        with kept a_kept ab show ?thesis
          unfolding pairwise_dissimilar_def by blast
      qed
    qed
  qed
  with admitted(6) show ?thesis unfolding pairwise_dissimilar_def by presburger
qed

section \<open>Normalisation\<close>

lemma replace_one_by_nothing: "replace s [c] [] = filter (\<lambda>x. x \<noteq> c) s"
proof (induction s)
  case Nil
  then show ?case by (simp add: replace.simps)
next
  case (Cons x s)
  then show ?case by (subst replace.simps) simp
qed

lemma remove_spaces_filter: "remove_spaces text = filter (\<lambda>c. c \<noteq> 32) text"
  by (simp add: remove_spaces_def ascii_def replace_one_by_nothing)

lemma count_list_remove_spaces:
  "count_list (remove_spaces s) c = (if c = 32 then 0 else count_list s c)"
  by (induction s) (auto simp: remove_spaces_filter)

section \<open>The configuration check\<close>

lemma validate_items_ok:
  "validate_items items = Inr () \<longleftrightarrow> (\<forall>(name, v) \<in> set items. truthy v)"
  by (induction items rule: validate_items.induct) auto

lemma validate_items_error:
  assumes "\<exists>(name, v) \<in> set items. \<not> truthy v"
  shows "\<exists>name v. (name, v) \<in> set items \<and> \<not> truthy v
           \<and> validate_items items = Inl (ValueError (config_error_message name))"
  using assms
proof (induction items rule: validate_items.induct)
  case 1
  then show ?case by simp
next
  case (2 var_name var_value items)
  show ?case
  proof (cases "truthy var_value")
    case True
    with "2.prems" have "\<exists>(name, v) \<in> set items. \<not> truthy v" by auto
    with "2.IH" True obtain name v where "(name, v) \<in> set items" "\<not> truthy v"
      "validate_items items = Inl (ValueError (config_error_message name))" by blast
    with True show ?thesis by auto
  next
    case False
    then show ?thesis by auto
  qed
qed

section \<open>The score of rapidfuzz is symmetric and gives 100 on equal strings\<close>

lemma lcs_length_Nil_right: "lcs_length s [] = 0"
  by (cases s) simp_all

lemma lcs_length_sym: "lcs_length s1 s2 = lcs_length s2 s1"
  by (induction s1 s2 rule: lcs_length.induct) (simp_all add: lcs_length_Nil_right max.commute)

lemma lcs_length_same: "lcs_length s s = length s"
  by (induction s) simp_all

lemma fuzz_ratio_sym: "fuzz_ratio a b = fuzz_ratio b a"
  by (simp add: fuzz_ratio_def indel_distance_def lcs_length_sym add.commute)

lemma fuzz_ratio_same: "fuzz_ratio a a = 100"
  by (simp add: fuzz_ratio_def indel_distance_def lcs_length_same)

section \<open>Evaluating the scenario\<close>

lemmas scenario_simps =
  scenario_config_def contains_stop_words_def any_key_word_def STOP_WORDS_SET_def
  KEY_WORDS_SET_def remove_spaces_filter ascii_lower_def ascii_def sublist_code

lemma load_scenario: "load_module api_check scenario_py = Inr scenario_config"
  by (simp add: load_module_def import_name_def scenario_py_def scenario_config_def
      api_check_def ascii_def)

section \<open>The claims\<close>

subsection \<open>C1\<close>

text \<open>
  C1, as stated, fails: a line feed is whitespace, but only the space is ignored in the
  match. The text \<open>s\<close>, line feed, \<open>cam deal\<close> holds the stop phrase \<open>scam\<close> when
  whitespace is ignored; the handler forwards it to the primary destination and stores it.
\<close>

theorem stop_phrase_missed_across_line_feed:
  "isspace 10
   \<and> filter (\<lambda>c. \<not> isspace c) (ascii_lower [115, 10, 99, 97, 109, 32, 100, 101, 97, 108])
       = ascii ''scamdeal''
   \<and> branch (new_message_handler ascii_lower scenario_config fuzz_ratio
        \<lparr>now_sweep = 5, now_admit = 6, forward_raises = None\<rparr>
        \<lparr>chat_id = 100, message_text = Some [115, 10, 99, 97, 109, 32, 100, 101, 97, 108]\<rparr> [])
       = ForwardToPrimaryDestination
   \<and> store_after (new_message_handler ascii_lower scenario_config fuzz_ratio
        \<lparr>now_sweep = 5, now_admit = 6, forward_raises = None\<rparr>
        \<lparr>chat_id = 100, message_text = Some [115, 10, 99, 97, 109, 32, 100, 101, 97, 108]\<rparr> [])
       = [([115, 10, 99, 97, 109, 32, 100, 101, 97, 108], 6)]"
proof -
  let ?t = "[115, 10, 99, 97, 109, 32, 100, 101, 97, 108] :: str"
  have ws: "isspace 10" by (simp add: isspace_def)
  have clean: "filter (\<lambda>c. \<not> isspace c) (ascii_lower ?t) = ascii ''scamdeal''"
    by (simp add: isspace_def ascii_lower_def ascii_def)
  have stop: "\<not> contains_stop_words ascii_lower scenario_config ?t"
    by (simp add: scenario_simps)
  have key: "any_key_word ascii_lower scenario_config (remove_spaces (ascii_lower ?t))"
    by (simp add: scenario_simps)
  have sim: "\<not> is_similar fuzz_ratio (remove_old_messages 5 []) ?t"
    by (simp add: remove_old_messages_def is_similar_def)
  have r: "new_message_handler ascii_lower scenario_config fuzz_ratio
        \<lparr>now_sweep = 5, now_admit = 6, forward_raises = None\<rparr>
        \<lparr>chat_id = 100, message_text = Some ?t\<rparr> []
      = \<lparr>branch = ForwardToPrimaryDestination,
         store_after = AList.update ?t 6 (remove_old_messages 5 []),
         effects = Log (Received 100) # ForwardMessages (DESTINATION scenario_config)
             \<lparr>chat_id = 100, message_text = Some ?t\<rparr> # [Log (Forwarded ?t), Sleep 2],
         raised = None\<rparr>"
    using handler_primary [where lower = ascii_lower and cfg = scenario_config
        and ratio = fuzz_ratio and t = ?t
        and e = "\<lparr>now_sweep = 5, now_admit = 6, forward_raises = None\<rparr>"
        and ev = "\<lparr>chat_id = 100, message_text = Some ?t\<rparr>" and store = "[]"]
      stop key sim by simp
  from ws clean r show ?thesis by (simp add: remove_old_messages_def)
qed

text \<open>
  C1, amended. A message with a non-empty text that holds a stop phrase, when both are
  lowercased and every space (U+0020, and no other whitespace) is deleted from both, is
  forwarded to the stop destination, whatever key phrases it holds and whatever the store
  holds: the effects are the forward to \<open>STOP_WORDS_DESTINATION\<close> alone, with no use of
  the similarity score, and the store is the swept store, so the message is not added to
  it.
\<close>

theorem stop_phrase_precedence:
  assumes "message_text ev = Some t" and "t \<noteq> []"
    and "\<exists>phrase \<in> set (STOP_WORDS cfg).
           sublist (filter (\<lambda>c. c \<noteq> 32) (lower phrase)) (filter (\<lambda>c. c \<noteq> 32) (lower t))"
  shows "branch (new_message_handler lower cfg ratio e ev store) = ForwardToStopDestination
       \<and> store_after (new_message_handler lower cfg ratio e ev store)
            = remove_old_messages (now_sweep e) store
       \<and> set (store_after (new_message_handler lower cfg ratio e ev store)) \<subseteq> set store
       \<and> effects (new_message_handler lower cfg ratio e ev store)
            = Log (Received (chat_id ev)) # ForwardMessages (STOP_WORDS_DESTINATION cfg) ev #
                (case forward_raises e of
                   None \<Rightarrow> [Log StopWordsForwarded]
                 | Some ex \<Rightarrow> [Log (ErrorLine ex), Sleep 60])"
proof -
  let ?r = "new_message_handler lower cfg ratio e ev store"
  from assms(3) have stop: "contains_stop_words lower cfg t"
    by (simp add: contains_stop_words_def STOP_WORDS_SET_def remove_spaces_filter)
  note r = handler_stop [OF assms(1,2) stop, of ratio e store]
  from r have "branch ?r = ForwardToStopDestination" by simp
  moreover from r have swept: "store_after ?r = remove_old_messages (now_sweep e) store"
    by simp
  moreover from swept have "set (store_after ?r) \<subseteq> set store"
    by (simp add: remove_old_messages_subset)
  moreover from r have "effects ?r
      = Log (Received (chat_id ev)) # ForwardMessages (STOP_WORDS_DESTINATION cfg) ev #
          (case forward_raises e of
             None \<Rightarrow> [Log StopWordsForwarded]
           | Some ex \<Rightarrow> [Log (ErrorLine ex), Sleep 60])"
    by simp
  ultimately show ?thesis by blast
qed

theorem stop_phrase_precedence_witness:
  "any_key_word ascii_lower scenario_config (remove_spaces (ascii_lower (ascii ''a S cam deal'')))
   \<and> is_similar fuzz_ratio [(ascii ''a S cam deal'', 0)] (ascii ''a S cam deal'')
   \<and> branch (new_message_handler ascii_lower scenario_config fuzz_ratio
         \<lparr>now_sweep = 5, now_admit = 6, forward_raises = None\<rparr>
         \<lparr>chat_id = 100, message_text = Some (ascii ''a S cam deal'')\<rparr>
         [(ascii ''a S cam deal'', 0)])
       = ForwardToStopDestination
   \<and> store_after (new_message_handler ascii_lower scenario_config fuzz_ratio
         \<lparr>now_sweep = 5, now_admit = 6, forward_raises = None\<rparr>
         \<lparr>chat_id = 100, message_text = Some (ascii ''a S cam deal'')\<rparr>
         [(ascii ''a S cam deal'', 0)])
       = [(ascii ''a S cam deal'', 0)]"
proof -
  let ?t = "ascii ''a S cam deal''"
  have stop: "\<exists>phrase \<in> set (STOP_WORDS scenario_config).
      sublist (filter (\<lambda>c. c \<noteq> 32) (ascii_lower phrase)) (filter (\<lambda>c. c \<noteq> 32) (ascii_lower ?t))"
    by (simp add: scenario_config_def ascii_lower_def ascii_def sublist_code)
  have key: "any_key_word ascii_lower scenario_config (remove_spaces (ascii_lower ?t))"
    by (simp add: scenario_simps)
  have sim: "is_similar fuzz_ratio [(?t, 0)] ?t"
    by (simp add: is_similar_def fuzz_ratio_same SIMILARITY_THRESHOLD_def)
  have sweep: "remove_old_messages 5 [(?t, 0)] = [(?t, 0)]"
    by (simp add: remove_old_messages_def FILTER_DURATION_def)
  have nonempty: "?t \<noteq> []" by (simp add: ascii_def)
  from stop_phrase_precedence [where lower = ascii_lower and cfg = scenario_config
      and ratio = fuzz_ratio and t = ?t
      and e = "\<lparr>now_sweep = 5, now_admit = 6, forward_raises = None\<rparr>"
      and ev = "\<lparr>chat_id = 100, message_text = Some ?t\<rparr>" and store = "[(?t, 0)]"]
    stop nonempty key sim sweep
  show ?thesis by simp
qed

subsection \<open>C2\<close>

text \<open>
  C2. A message with a non-empty text and no stop phrase is dropped as a duplicate exactly
  when some entry that the sweep retains has a score of at least 90 against the text as
  received; the stored key and the candidate are both the raw texts.
\<close>

theorem duplicate_iff_similar_retained:
  assumes "message_text ev = Some t" and "t \<noteq> []" and "\<not> contains_stop_words lower cfg t"
    and "wf_store store"
  shows "branch (new_message_handler lower cfg ratio e ev store) = DropDuplicate
         \<longleftrightarrow> (\<exists>(s, timestamp) \<in> set store.
                \<not> now_sweep e - timestamp > FILTER_DURATION \<and> ratio s t \<ge> 90)"
proof -
  let ?kept = "remove_old_messages (now_sweep e) store"
  have kept: "is_similar ratio ?kept t
      \<longleftrightarrow> (\<exists>(s, timestamp) \<in> set store.
                \<not> now_sweep e - timestamp > FILTER_DURATION \<and> ratio s t \<ge> 90)"
    unfolding is_similar_iff remove_old_messages_filter [OF assms(4)] SIMILARITY_THRESHOLD_def
    by force
  show ?thesis
  proof (cases "is_similar ratio ?kept t")
    case True
    with handler_duplicate [OF assms(1-3) True] kept show ?thesis by simp
  next
    case False
    show ?thesis
    proof (cases "any_key_word lower cfg (remove_spaces (lower t))")
      case True
      with handler_primary [OF assms(1-3) False True] kept False show ?thesis by simp
    next
      case nk: False
      with handler_no_key_words [OF assms(1-3) False nk] kept False show ?thesis by simp
    qed
  qed
qed

theorem duplicate_iff_similar_retained_witness:
  "branch (new_message_handler ascii_lower scenario_config fuzz_ratio
      \<lparr>now_sweep = 5, now_admit = 6, forward_raises = None\<rparr>
      \<lparr>chat_id = 100, message_text = Some (ascii ''a deal'')\<rparr> [((ascii ''a deal''), 0)]) = DropDuplicate
   \<and> remove_spaces (ascii_lower (ascii ''A deal'')) = remove_spaces (ascii_lower (ascii ''a deal''))
   \<and> fuzz_ratio (ascii ''A deal'') (ascii ''a deal'') = 250 / 3
   \<and> branch (new_message_handler ascii_lower scenario_config fuzz_ratio
      \<lparr>now_sweep = 5, now_admit = 6, forward_raises = None\<rparr>
      \<lparr>chat_id = 100, message_text = Some (ascii ''a deal'')\<rparr> [((ascii ''A deal''), 0)]) \<noteq> DropDuplicate
   \<and> fuzz_ratio (ascii ''a deal 123'') (ascii ''a deal 124'') = 90
   \<and> branch (new_message_handler ascii_lower scenario_config fuzz_ratio
      \<lparr>now_sweep = 5, now_admit = 6, forward_raises = None\<rparr>
      \<lparr>chat_id = 100, message_text = Some (ascii ''a deal 124'')\<rparr> [((ascii ''a deal 123''), 0)])
       = DropDuplicate"
proof -
  let ?e = "\<lparr>now_sweep = 5, now_admit = 6, forward_raises = None\<rparr>"
  let ?ev = "\<lparr>chat_id = 100, message_text = Some (ascii ''a deal'')\<rparr>"
  have stop: "\<not> contains_stop_words ascii_lower scenario_config (ascii ''a deal'')"
    by (simp add: scenario_simps)
  have wf: "wf_store [((ascii ''a deal''), 0)]" "wf_store [((ascii ''A deal''), 0)]"
    by (simp_all add: ascii_def wf_store_def)
  have same: "fuzz_ratio (ascii ''a deal'') (ascii ''a deal'') \<ge> 90"
    by (simp add: ascii_def fuzz_ratio_def indel_distance_def)
  have raw: "fuzz_ratio (ascii ''A deal'') (ascii ''a deal'') = 250 / 3"
    by (simp add: ascii_def fuzz_ratio_def indel_distance_def)
  have clean: "remove_spaces (ascii_lower (ascii ''A deal'')) = remove_spaces (ascii_lower (ascii ''a deal''))"
    by (simp add: scenario_simps)
  from duplicate_iff_similar_retained [where lower = ascii_lower and ev = ?ev
      and t = "ascii ''a deal''" and cfg = scenario_config and store = "[(ascii ''a deal'', 0)]"
      and ratio = fuzz_ratio and e = ?e] stop wf same
  have dup: "branch (new_message_handler ascii_lower scenario_config fuzz_ratio ?e ?ev [((ascii ''a deal''), 0)])
      = DropDuplicate"
    by (simp add: ascii_def FILTER_DURATION_def)
  from duplicate_iff_similar_retained [where lower = ascii_lower and ev = ?ev
      and t = "ascii ''a deal''" and cfg = scenario_config and store = "[(ascii ''A deal'', 0)]"
      and ratio = fuzz_ratio and e = ?e] stop wf raw
  have other: "branch (new_message_handler ascii_lower scenario_config fuzz_ratio ?e ?ev [((ascii ''A deal''), 0)])
      \<noteq> DropDuplicate"
    by (simp add: ascii_def FILTER_DURATION_def)
  have stop': "\<not> contains_stop_words ascii_lower scenario_config (ascii ''a deal 124'')"
    by (simp add: scenario_simps)
  have wf': "wf_store [((ascii ''a deal 123''), 0)]"
    by (simp add: ascii_def wf_store_def)
  have exact: "fuzz_ratio (ascii ''a deal 123'') (ascii ''a deal 124'') = 90"
    by (simp add: ascii_def fuzz_ratio_def indel_distance_def)
  from duplicate_iff_similar_retained
    [where lower = ascii_lower
      and ev = "\<lparr>chat_id = 100, message_text = Some (ascii ''a deal 124'')\<rparr>"
      and t = "ascii ''a deal 124''" and cfg = scenario_config
      and store = "[(ascii ''a deal 123'', 0)]" and ratio = fuzz_ratio and e = ?e] stop' wf' exact
  have threshold: "branch (new_message_handler ascii_lower scenario_config fuzz_ratio ?e
      \<lparr>chat_id = 100, message_text = Some (ascii ''a deal 124'')\<rparr> [((ascii ''a deal 123''), 0)])
       = DropDuplicate"
    by (simp add: ascii_def FILTER_DURATION_def)
  from dup clean raw other exact threshold show ?thesis by simp
qed

subsection \<open>C3\<close>

text \<open>
  C3. The sweep keeps exactly the entries whose time of admission is not before
  \<open>now - FILTER_DURATION\<close>. Every call on a message with text sweeps first: the store it
  leaves is built from the swept store, and the duplicate test reads the swept store.
  So an entry admitted at \<open>T\<close> still makes the same text a duplicate at 23 hours 59
  minutes after \<open>T\<close>, and at 24 hours 1 minute after \<open>T\<close> it is gone and the text is
  admitted afresh.
\<close>

theorem expiry_sweep:
  assumes "wf_store store"
  shows "remove_old_messages now store
           = filter (\<lambda>(msg, timestamp). \<not> timestamp < now - FILTER_DURATION) store
       \<and> (\<forall>t. message_text ev = Some t \<and> t \<noteq> [] \<longrightarrow>
            (store_after (new_message_handler lower cfg ratio e ev store)
               = remove_old_messages (now_sweep e) store
             \<or> store_after (new_message_handler lower cfg ratio e ev store)
               = AList.update t (now_admit e) (remove_old_messages (now_sweep e) store))
            \<and> (branch (new_message_handler lower cfg ratio e ev store) = DropDuplicate
                 \<longleftrightarrow> \<not> contains_stop_words lower cfg t
                     \<and> is_similar ratio (remove_old_messages (now_sweep e) store) t))
       \<and> (\<forall>s T. (s, T) \<in> set store \<and> now_sweep e = T + (FILTER_DURATION - 60 * 1000000)
              \<and> message_text ev = Some s \<and> s \<noteq> [] \<and> \<not> contains_stop_words lower cfg s
              \<and> ratio s s \<ge> 90 \<longrightarrow>
            branch (new_message_handler lower cfg ratio e ev store) = DropDuplicate)
       \<and> (\<forall>s T. store = [(s, T)] \<and> now_sweep e = T + (FILTER_DURATION + 60 * 1000000)
              \<and> message_text ev = Some s \<and> s \<noteq> [] \<and> \<not> contains_stop_words lower cfg s
              \<and> any_key_word lower cfg (remove_spaces (lower s)) \<longrightarrow>
            branch (new_message_handler lower cfg ratio e ev store) = ForwardToPrimaryDestination
            \<and> store_after (new_message_handler lower cfg ratio e ev store) = [(s, now_admit e)])"
proof (intro conjI allI impI)
  have "(\<lambda>(msg, timestamp). \<not> now - timestamp > FILTER_DURATION)
      = (\<lambda>(msg :: str, timestamp). \<not> timestamp < now - FILTER_DURATION)"
    by (auto simp: fun_eq_iff)
  with remove_old_messages_filter [OF assms, of now]
  show "remove_old_messages now store
          = filter (\<lambda>(msg, timestamp). \<not> timestamp < now - FILTER_DURATION) store"
    by simp
next
  fix t assume "message_text ev = Some t \<and> t \<noteq> []"
  then show "store_after (new_message_handler lower cfg ratio e ev store)
               = remove_old_messages (now_sweep e) store
             \<or> store_after (new_message_handler lower cfg ratio e ev store)
               = AList.update t (now_admit e) (remove_old_messages (now_sweep e) store)"
    using handler_text_store by blast
next
  fix t assume "message_text ev = Some t \<and> t \<noteq> []"
  then show "branch (new_message_handler lower cfg ratio e ev store) = DropDuplicate
                 \<longleftrightarrow> \<not> contains_stop_words lower cfg t
                     \<and> is_similar ratio (remove_old_messages (now_sweep e) store) t"
    using handler_duplicate_iff by blast
next
  fix s T
  assume a: "(s, T) \<in> set store \<and> now_sweep e = T + (FILTER_DURATION - 60 * 1000000)
              \<and> message_text ev = Some s \<and> s \<noteq> [] \<and> \<not> contains_stop_words lower cfg s
              \<and> ratio s s \<ge> 90"
  then have "\<not> now_sweep e - T > FILTER_DURATION" by simp
  with a have "is_similar ratio (remove_old_messages (now_sweep e) store) s"
    unfolding is_similar_retained [OF assms] by blast
  with a show "branch (new_message_handler lower cfg ratio e ev store) = DropDuplicate"
    by (simp add: handler_duplicate_iff)
next
  fix s T
  assume a: "store = [(s, T)] \<and> now_sweep e = T + (FILTER_DURATION + 60 * 1000000)
              \<and> message_text ev = Some s \<and> s \<noteq> [] \<and> \<not> contains_stop_words lower cfg s
              \<and> any_key_word lower cfg (remove_spaces (lower s))"
  then have sweep: "remove_old_messages (now_sweep e) store = []"
    by (simp add: remove_old_messages_def)
  then have "\<not> is_similar ratio (remove_old_messages (now_sweep e) store) s"
    by (simp add: is_similar_def)
  with a have h: "new_message_handler lower cfg ratio e ev store =
           \<lparr>branch = ForwardToPrimaryDestination,
            store_after = AList.update s (now_admit e) (remove_old_messages (now_sweep e) store),
            effects = Log (Received (chat_id ev)) # ForwardMessages (DESTINATION cfg) ev #
              (case forward_raises e of
                 None \<Rightarrow> [Log (Forwarded s), Sleep 2]
               | Some ex \<Rightarrow> [Log (ErrorLine ex), Sleep 60]),
            raised = None\<rparr>"
    by (intro handler_primary) auto
  from h sweep
  show "branch (new_message_handler lower cfg ratio e ev store) = ForwardToPrimaryDestination"
    by simp
  from h sweep
  show "store_after (new_message_handler lower cfg ratio e ev store) = [(s, now_admit e)]"
    by simp
qed

theorem expiry_sweep_witness:
  "wf_store [((ascii ''a deal''), 0)]
   \<and> remove_old_messages 86400000001 [((ascii ''a deal''), 0), ((ascii ''b deal''), 1)] = [((ascii ''b deal''), 1)]
   \<and> branch (new_message_handler ascii_lower scenario_config fuzz_ratio
        \<lparr>now_sweep = 86340000000, now_admit = 86340000007, forward_raises = None\<rparr>
        \<lparr>chat_id = 100, message_text = Some (ascii ''a deal'')\<rparr> [((ascii ''a deal''), 0)]) = DropDuplicate
   \<and> store_after (new_message_handler ascii_lower scenario_config fuzz_ratio
        \<lparr>now_sweep = 86460000000, now_admit = 86460000007, forward_raises = None\<rparr>
        \<lparr>chat_id = 100, message_text = Some (ascii ''a deal'')\<rparr> [((ascii ''a deal''), 0)])
       = [((ascii ''a deal''), 86460000007)]"
proof -
  have wf1: "wf_store [((ascii ''a deal''), 0)]" and wf2: "wf_store [((ascii ''a deal''), 0), ((ascii ''b deal''), 1)]"
    by (simp_all add: ascii_def wf_store_def)
  have stop: "\<not> contains_stop_words ascii_lower scenario_config (ascii ''a deal'')"
    by (simp add: scenario_simps)
  have key: "any_key_word ascii_lower scenario_config (remove_spaces (ascii_lower (ascii ''a deal'')))"
    by (simp add: scenario_simps)
  have r: "fuzz_ratio (ascii ''a deal'') (ascii ''a deal'') \<ge> 90"
    by (simp add: ascii_def fuzz_ratio_def indel_distance_def)
  have sweep: "remove_old_messages 86400000001 [((ascii ''a deal''), 0), ((ascii ''b deal''), 1)] = [((ascii ''b deal''), 1)]"
    using expiry_sweep [OF wf2, THEN conjunct1, of 86400000001]
    by (simp add: ascii_def FILTER_DURATION_def)
  have before: "branch (new_message_handler ascii_lower scenario_config fuzz_ratio
        \<lparr>now_sweep = 86340000000, now_admit = 86340000007, forward_raises = None\<rparr>
        \<lparr>chat_id = 100, message_text = Some (ascii ''a deal'')\<rparr> [((ascii ''a deal''), 0)]) = DropDuplicate"
    using expiry_sweep [OF wf1, THEN conjunct2, THEN conjunct2, THEN conjunct1, rule_format,
        where lower = ascii_lower and s = "ascii ''a deal''" and T = 0 and e = "\<lparr>now_sweep = 86340000000, now_admit = 86340000007, forward_raises = None\<rparr>"
        and ev = "\<lparr>chat_id = 100, message_text = Some (ascii ''a deal'')\<rparr>"
        and cfg = scenario_config and ratio = fuzz_ratio]
      stop r
    by (simp add: ascii_def FILTER_DURATION_def)
  have after: "store_after (new_message_handler ascii_lower scenario_config fuzz_ratio
        \<lparr>now_sweep = 86460000000, now_admit = 86460000007, forward_raises = None\<rparr>
        \<lparr>chat_id = 100, message_text = Some (ascii ''a deal'')\<rparr> [((ascii ''a deal''), 0)])
       = [((ascii ''a deal''), 86460000007)]"
    using expiry_sweep [OF wf1, THEN conjunct2, THEN conjunct2, THEN conjunct2, rule_format,
        where lower = ascii_lower and s = "ascii ''a deal''" and T = 0 and e = "\<lparr>now_sweep = 86460000000, now_admit = 86460000007, forward_raises = None\<rparr>"
        and ev = "\<lparr>chat_id = 100, message_text = Some (ascii ''a deal'')\<rparr>"
        and cfg = scenario_config and ratio = fuzz_ratio]
      stop key
    by (simp add: ascii_def FILTER_DURATION_def)
  from wf1 sweep before after show ?thesis by simp
qed

subsection \<open>C4\<close>

text \<open>
  C4, as stated, fails: a tab is whitespace and stays in the normalised text, so the stop
  phrase \<open>scam\<close> is not found in a text that differs from it by a tab, while it is found
  in a text that differs from it by a space.
\<close>

theorem normalize_keeps_tab:
  "isspace 9
   \<and> remove_spaces (ascii_lower [83, 9, 99, 97, 109]) = [115, 9, 99, 97, 109]
   \<and> \<not> contains_stop_words ascii_lower scenario_config [83, 9, 99, 97, 109]
   \<and> contains_stop_words ascii_lower scenario_config (ascii ''S cam'')"
  by (simp add: isspace_def scenario_simps)

text \<open>
  C4, amended. Normalisation is \<^verbatim>\<open>str.lower\<close> followed by the deletion of every space
  (U+0020) and of nothing else: the result is the lowercased text without its spaces, in
  the same order, so every other whitespace code point occurs in it as often as in the
  lowercased text. The stop-phrase test and the key-phrase test of the handler apply this
  normalisation to the message text and to each configured phrase, and then test
  containment.
\<close>

theorem normalize_removes_spaces_only:
  "remove_spaces (lower msg) = filter (\<lambda>c. c \<noteq> 32) (lower msg)
   \<and> (\<forall>c. isspace c \<and> c \<noteq> 32 \<longrightarrow>
         count_list (remove_spaces (lower msg)) c = count_list (lower msg) c)
   \<and> (contains_stop_words lower cfg msg \<longleftrightarrow>
        (\<exists>phrase \<in> set (STOP_WORDS cfg).
           sublist (filter (\<lambda>c. c \<noteq> 32) (lower phrase)) (filter (\<lambda>c. c \<noteq> 32) (lower msg))))
   \<and> (message_text ev = Some msg \<and> msg \<noteq> [] \<and> \<not> contains_stop_words lower cfg msg
        \<and> \<not> is_similar ratio (remove_old_messages (now_sweep e) store) msg \<longrightarrow>
        (branch (new_message_handler lower cfg ratio e ev store) = ForwardToPrimaryDestination
         \<longleftrightarrow> (\<exists>phrase \<in> set (KEY_WORDS cfg).
                sublist (filter (\<lambda>c. c \<noteq> 32) (lower phrase))
                  (filter (\<lambda>c. c \<noteq> 32) (lower msg)))))"
proof -
  have spaces: "remove_spaces (lower msg) = filter (\<lambda>c. c \<noteq> 32) (lower msg)"
    by (rule remove_spaces_filter)
  have kept: "count_list (remove_spaces (lower msg)) c = count_list (lower msg) c"
    if "isspace c \<and> c \<noteq> 32" for c
    using that by (simp add: count_list_remove_spaces)
  have stop: "contains_stop_words lower cfg msg \<longleftrightarrow>
        (\<exists>phrase \<in> set (STOP_WORDS cfg).
           sublist (filter (\<lambda>c. c \<noteq> 32) (lower phrase)) (filter (\<lambda>c. c \<noteq> 32) (lower msg)))"
    by (simp add: contains_stop_words_def STOP_WORDS_SET_def remove_spaces_filter)
  have key_test: "any_key_word lower cfg (remove_spaces (lower msg)) \<longleftrightarrow>
        (\<exists>phrase \<in> set (KEY_WORDS cfg).
           sublist (filter (\<lambda>c. c \<noteq> 32) (lower phrase)) (filter (\<lambda>c. c \<noteq> 32) (lower msg)))"
    by (simp add: any_key_word_def KEY_WORDS_SET_def remove_spaces_filter)
  have key: "branch (new_message_handler lower cfg ratio e ev store) = ForwardToPrimaryDestination
         \<longleftrightarrow> (\<exists>phrase \<in> set (KEY_WORDS cfg).
                sublist (filter (\<lambda>c. c \<noteq> 32) (lower phrase))
                  (filter (\<lambda>c. c \<noteq> 32) (lower msg)))"
    if h: "message_text ev = Some msg \<and> msg \<noteq> [] \<and> \<not> contains_stop_words lower cfg msg
        \<and> \<not> is_similar ratio (remove_old_messages (now_sweep e) store) msg"
  proof (cases "any_key_word lower cfg (remove_spaces (lower msg))")
    case True
    from h True have "branch (new_message_handler lower cfg ratio e ev store)
        = ForwardToPrimaryDestination"
      by (simp add: handler_primary)
    with True key_test show ?thesis by simp
  next
    case False
    from h False have "branch (new_message_handler lower cfg ratio e ev store) = DropNoKeyWords"
      by (simp add: handler_no_key_words)
    with False key_test show ?thesis by simp
  qed
  from spaces kept stop key show ?thesis by blast
qed

theorem normalize_removes_spaces_only_witness:
  "isspace 9 \<and> (9 :: nat) \<noteq> 32
   \<and> remove_spaces (ascii_lower [83, 32, 9, 67, 32, 97, 109]) = [115, 9, 99, 97, 109]
   \<and> count_list (remove_spaces (ascii_lower [83, 32, 9, 67, 32, 97, 109])) 9 = 1
   \<and> contains_stop_words ascii_lower (scenario_config\<lparr>STOP_WORDS := [ascii ''S Cam'']\<rparr>)
        (ascii ''a sc am'')"
proof -
  let ?t = "[83, 32, 9, 67, 32, 97, 109] :: str"
  note th = normalize_removes_spaces_only [where lower = ascii_lower and msg = ?t]
  note th' = normalize_removes_spaces_only [where lower = ascii_lower
      and msg = "ascii ''a sc am''" and cfg = "scenario_config\<lparr>STOP_WORDS := [ascii ''S Cam'']\<rparr>"]
  have ws: "isspace 9 \<and> (9 :: nat) \<noteq> 32"
    by (simp add: isspace_def)
  from th have clean: "remove_spaces (ascii_lower ?t) = [115, 9, 99, 97, 109]"
    by (simp add: ascii_lower_def)
  from th ws have tab: "count_list (remove_spaces (ascii_lower ?t)) 9 = 1"
    by (simp add: ascii_lower_def)
  have "sublist (filter (\<lambda>c. c \<noteq> 32) (ascii_lower (ascii ''S Cam'')))
      (filter (\<lambda>c. c \<noteq> 32) (ascii_lower (ascii ''a sc am'')))"
    by (simp add: ascii_lower_def ascii_def sublist_code)
  with th' have "contains_stop_words ascii_lower (scenario_config\<lparr>STOP_WORDS := [ascii ''S Cam'']\<rparr>)
        (ascii ''a sc am'')"
    by simp
  with ws clean tab show ?thesis by simp
qed

subsection \<open>C5\<close>

text \<open>
  C5. Take any store the handler has built from the empty one, an entry \<open>(s, T)\<close> of it
  that the next sweep retains, and a score with \<open>ratio s s \<ge> 90\<close>. After the next call the
  store still maps \<open>s\<close> to \<open>T\<close>; a message whose text is \<open>s\<close> is dropped as a duplicate;
  and the admission branch is not taken for the text \<open>s\<close>.
\<close>

theorem no_timestamp_refresh:
  assumes "ratio s s \<ge> 90"
    and "(s, T) \<in> set (run_store lower cfg ratio steps [])"
    and "\<not> now_sweep e - T > FILTER_DURATION"
  shows "map_of (store_after (new_message_handler lower cfg ratio e ev (run_store lower cfg ratio steps []))) s
           = Some T
       \<and> (message_text ev = Some s \<longrightarrow>
            branch (new_message_handler lower cfg ratio e ev (run_store lower cfg ratio steps []))
              = DropDuplicate)
       \<and> (branch (new_message_handler lower cfg ratio e ev (run_store lower cfg ratio steps []))
            = ForwardToPrimaryDestination \<longrightarrow> message_text ev \<noteq> Some s)"
proof -
  let ?store = "run_store lower cfg ratio steps []"
  let ?kept = "remove_old_messages (now_sweep e) ?store"
  let ?r = "new_message_handler lower cfg ratio e ev ?store"
  have inv: "admitted_only lower cfg ?store" by (rule admitted_only_run_store)
  then have wf: "wf_store ?store" by (simp add: admitted_only_def)
  from inv assms(2) have s: "s \<noteq> []" "\<not> contains_stop_words lower cfg s"
    unfolding admitted_only_def by force+
  have kept: "(s, T) \<in> set ?kept" using wf assms(2,3) by (rule retained_entry)
  then have sim: "is_similar ratio ?kept s"
    unfolding is_similar_iff SIMILARITY_THRESHOLD_def using assms(1) by force
  have wf_kept: "wf_store ?kept" using wf by (rule wf_store_remove_old)
  have first: "map_of (store_after ?r) s = Some T"
  proof (cases rule: handler_store_cases
      [where lower = lower and ev = ev and cfg = cfg and ratio = ratio and e = e and store = ?store])
    case same
    with wf assms(2) show ?thesis by (simp add: wf_store_map_of)
  next
    case swept
    with wf_kept kept show ?thesis by (simp add: wf_store_map_of)
  next
    case (admitted t)
    from admitted(4) sim have "t \<noteq> s" by auto
    with admitted(6) wf_kept kept show ?thesis
      by (simp add: update_conv wf_store_map_of)
  qed
  have second: "branch ?r = DropDuplicate" if "message_text ev = Some s"
    using handler_duplicate [OF that s sim] by simp
  have third: "message_text ev \<noteq> Some s" if "branch ?r = ForwardToPrimaryDestination"
    using second that by auto
  from first second third show ?thesis by blast
qed

theorem no_timestamp_refresh_witness:
  "run_store ascii_lower scenario_config fuzz_ratio
      [(\<lparr>now_sweep = 5, now_admit = 6, forward_raises = None\<rparr>,
        \<lparr>chat_id = 100, message_text = Some (ascii ''a deal'')\<rparr>)] [] = [((ascii ''a deal''), 6)]
   \<and> store_after (new_message_handler ascii_lower scenario_config fuzz_ratio
        \<lparr>now_sweep = 1000, now_admit = 1001, forward_raises = None\<rparr>
        \<lparr>chat_id = 100, message_text = Some (ascii ''a deal'')\<rparr> [((ascii ''a deal''), 6)]) = [((ascii ''a deal''), 6)]
   \<and> branch (new_message_handler ascii_lower scenario_config fuzz_ratio
        \<lparr>now_sweep = 1000, now_admit = 1001, forward_raises = None\<rparr>
        \<lparr>chat_id = 100, message_text = Some (ascii ''a deal'')\<rparr> [((ascii ''a deal''), 6)]) = DropDuplicate"
proof -
  let ?steps = "[(\<lparr>now_sweep = 5, now_admit = 6, forward_raises = None\<rparr>,
        \<lparr>chat_id = 100, message_text = Some (ascii ''a deal'')\<rparr>)]"
  let ?e = "\<lparr>now_sweep = 1000, now_admit = 1001, forward_raises = None\<rparr>"
  let ?ev = "\<lparr>chat_id = 100, message_text = Some (ascii ''a deal'')\<rparr>"
  have stop: "\<not> contains_stop_words ascii_lower scenario_config (ascii ''a deal'')"
    by (simp add: scenario_simps)
  have key: "any_key_word ascii_lower scenario_config (remove_spaces (ascii_lower (ascii ''a deal'')))"
    by (simp add: scenario_simps)
  have r: "fuzz_ratio (ascii ''a deal'') (ascii ''a deal'') \<ge> 90"
    by (simp add: ascii_def fuzz_ratio_def indel_distance_def)
  have run: "run_store ascii_lower scenario_config fuzz_ratio ?steps [] = [((ascii ''a deal''), 6)]"
    using stop key
    by (simp add: ascii_def new_message_handler_def try_body_def remove_old_messages_def is_similar_def
        forward_then_def)
  have sweep: "remove_old_messages 1000 [((ascii ''a deal''), 6)] = [((ascii ''a deal''), 6)]"
    by (simp add: ascii_def remove_old_messages_def FILTER_DURATION_def)
  have sim: "is_similar fuzz_ratio [((ascii ''a deal''), 6)] (ascii ''a deal'')"
    using r by (simp add: ascii_def is_similar_def SIMILARITY_THRESHOLD_def)
  have st: "store_after (new_message_handler ascii_lower scenario_config fuzz_ratio ?e ?ev [((ascii ''a deal''), 6)])
      = [((ascii ''a deal''), 6)]"
    using stop sweep sim by (simp add: ascii_def new_message_handler_def try_body_def)
  from no_timestamp_refresh [where lower = ascii_lower and ratio = fuzz_ratio
      and s = "ascii ''a deal''" and T = 6 and cfg = scenario_config and steps = ?steps
      and e = ?e and ev = ?ev] r run st
  show ?thesis by (simp add: ascii_def FILTER_DURATION_def)
qed

subsection \<open>C6\<close>

text \<open>
  C6. The store gains an entry only on the key-phrase branch. When the call returns at
  any other point (no text, stop phrase, duplicate, no key phrase) the store is the old
  one or the swept one, so every entry it holds was there before with the same text and
  time; on the key-phrase branch it is the swept store with the text assigned the
  admission time.
\<close>

theorem store_frame:
  "(branch (new_message_handler lower cfg ratio e ev store) \<noteq> ForwardToPrimaryDestination \<longrightarrow>
      (store_after (new_message_handler lower cfg ratio e ev store) = store
       \<or> store_after (new_message_handler lower cfg ratio e ev store)
            = remove_old_messages (now_sweep e) store)
      \<and> set (store_after (new_message_handler lower cfg ratio e ev store)) \<subseteq> set store)
   \<and> (branch (new_message_handler lower cfg ratio e ev store) = ForwardToPrimaryDestination \<longrightarrow>
      (\<exists>t. message_text ev = Some t \<and> any_key_word lower cfg (remove_spaces (lower t))
         \<and> store_after (new_message_handler lower cfg ratio e ev store)
              = AList.update t (now_admit e) (remove_old_messages (now_sweep e) store)))"
proof (cases rule: handler_cases [where lower = lower and ev = ev and cfg = cfg and ratio = ratio and e = e and store = store])
  case no_text
  from handler_no_text [OF this] show ?thesis by simp
next
  case (stop t)
  from handler_stop [OF this] show ?thesis by (simp add: remove_old_messages_subset)
next
  case (duplicate t)
  from handler_duplicate [OF this] show ?thesis by (simp add: remove_old_messages_subset)
next
  case (primary t)
  from handler_primary [OF this] primary show ?thesis by simp
next
  case (no_key_words t)
  from handler_no_key_words [OF this] show ?thesis by (simp add: remove_old_messages_subset)
qed

theorem store_frame_witness:
  "branch (new_message_handler ascii_lower scenario_config fuzz_ratio
      \<lparr>now_sweep = 5, now_admit = 6, forward_raises = None\<rparr>
      \<lparr>chat_id = 100, message_text = Some (ascii ''hello'')\<rparr> [((ascii ''a deal''), 0)]) = DropNoKeyWords
   \<and> store_after (new_message_handler ascii_lower scenario_config fuzz_ratio
      \<lparr>now_sweep = 5, now_admit = 6, forward_raises = None\<rparr>
      \<lparr>chat_id = 100, message_text = Some (ascii ''hello'')\<rparr> [((ascii ''a deal''), 0)]) = [((ascii ''a deal''), 0)]"
proof -
  have stop: "\<not> contains_stop_words ascii_lower scenario_config (ascii ''hello'')"
    by (simp add: scenario_simps)
  have key: "\<not> any_key_word ascii_lower scenario_config (remove_spaces (ascii_lower (ascii ''hello'')))"
    by (simp add: scenario_simps)
  have sweep: "remove_old_messages 5 [((ascii ''a deal''), 0)] = [((ascii ''a deal''), 0)]"
    by (simp add: ascii_def remove_old_messages_def FILTER_DURATION_def)
  have sim: "\<not> is_similar fuzz_ratio [((ascii ''a deal''), 0)] (ascii ''hello'')"
    by (simp add: ascii_def is_similar_def fuzz_ratio_def indel_distance_def SIMILARITY_THRESHOLD_def)
  have b: "branch (new_message_handler ascii_lower scenario_config fuzz_ratio
      \<lparr>now_sweep = 5, now_admit = 6, forward_raises = None\<rparr>
      \<lparr>chat_id = 100, message_text = Some (ascii ''hello'')\<rparr> [((ascii ''a deal''), 0)]) = DropNoKeyWords"
    using stop key sweep sim by (simp add: ascii_def new_message_handler_def try_body_def)
  from store_frame [where lower = ascii_lower and cfg = scenario_config
      and ratio = fuzz_ratio and e = "\<lparr>now_sweep = 5, now_admit = 6, forward_raises = None\<rparr>"
      and ev = "\<lparr>chat_id = 100, message_text = Some (ascii ''hello'')\<rparr>" and store = "[((ascii ''a deal''), 0)]"] b sweep
  show ?thesis by auto
qed

subsection \<open>C7\<close>

text \<open>
  C7. An exception can only come from the forward call. The handler catches it: it
  returns normally, and what it did is one forward attempt, then the log line with the
  exception, then a sleep of 60 seconds. The message is not forwarded again, and the run
  goes on to the remaining events: every event gets its call. Without an exception there
  is no 60-second sleep.
\<close>

theorem errors_caught_with_cooldown:
  "raised (new_message_handler lower cfg ratio e ev store) = None
   \<and> (raised (try_body lower cfg ratio e ev store) = Some ex
        \<longleftrightarrow> forward_raises e = Some ex
            \<and> branch (new_message_handler lower cfg ratio e ev store)
                \<in> {ForwardToStopDestination, ForwardToPrimaryDestination})
   \<and> (raised (try_body lower cfg ratio e ev store) = Some ex \<longrightarrow>
        effects (new_message_handler lower cfg ratio e ev store)
          = [Log (Received (chat_id ev)),
             ForwardMessages (if branch (new_message_handler lower cfg ratio e ev store)
                                 = ForwardToStopDestination
                              then STOP_WORDS_DESTINATION cfg else DESTINATION cfg) ev,
             Log (ErrorLine ex), Sleep 60])
   \<and> (raised (try_body lower cfg ratio e ev store) = None \<longrightarrow>
        Sleep 60 \<notin> set (effects (new_message_handler lower cfg ratio e ev store)))
   \<and> run lower cfg ratio ((e, ev) # steps) store
        = new_message_handler lower cfg ratio e ev store
          # run lower cfg ratio steps (store_after (new_message_handler lower cfg ratio e ev store))
   \<and> length (run lower cfg ratio ((e, ev) # steps) store) = Suc (length steps)"
proof -
  let ?r = "new_message_handler lower cfg ratio e ev store"
  have raised_iff: "raised (try_body lower cfg ratio e ev store) = Some ex
        \<longleftrightarrow> forward_raises e = Some ex
            \<and> branch ?r \<in> {ForwardToStopDestination, ForwardToPrimaryDestination}" for ex
    unfolding handler_branch by (rule try_body_raised)
  have on_error: "effects ?r
          = [Log (Received (chat_id ev)),
             ForwardMessages (if branch ?r = ForwardToStopDestination
                              then STOP_WORDS_DESTINATION cfg else DESTINATION cfg) ev,
             Log (ErrorLine ex), Sleep 60]"
    if "raised (try_body lower cfg ratio e ev store) = Some ex"
    using that handler_effects_on_error unfolding raised_iff by blast
  have quiet: "Sleep 60 \<notin> set (effects ?r)" if "raised (try_body lower cfg ratio e ev store) = None"
  proof (rule handler_no_cooldown)
    show "forward_raises e = None
         \<or> branch ?r \<notin> {ForwardToStopDestination, ForwardToPrimaryDestination}"
    proof (cases "forward_raises e")
      case None
      then show ?thesis by simp
    next
      case (Some ex')
      with that raised_iff [of ex'] show ?thesis by simp
    qed
  qed
  have next_event: "run lower cfg ratio ((e, ev) # steps) store
      = ?r # run lower cfg ratio steps (store_after ?r)"
    by (simp add: Let_def)
  have all_events: "length (run lower cfg ratio ((e, ev) # steps) store) = Suc (length steps)"
    by (simp add: length_run Let_def)
  from handler_raised raised_iff on_error quiet next_event all_events show ?thesis by blast
qed

theorem errors_caught_with_cooldown_witness:
  "raised (try_body ascii_lower scenario_config fuzz_ratio
      \<lparr>now_sweep = 5, now_admit = 6, forward_raises = Some ''FloodWaitError''\<rparr>
      \<lparr>chat_id = 100, message_text = Some (ascii ''a deal'')\<rparr> []) = Some ''FloodWaitError''
   \<and> effects (new_message_handler ascii_lower scenario_config fuzz_ratio
      \<lparr>now_sweep = 5, now_admit = 6, forward_raises = Some ''FloodWaitError''\<rparr>
      \<lparr>chat_id = 100, message_text = Some (ascii ''a deal'')\<rparr> [])
     = [Log (Received 100),
        ForwardMessages (PyInt 200) \<lparr>chat_id = 100, message_text = Some (ascii ''a deal'')\<rparr>,
        Log (ErrorLine ''FloodWaitError''), Sleep 60]"
proof -
  let ?e = "\<lparr>now_sweep = 5, now_admit = 6, forward_raises = Some ''FloodWaitError''\<rparr>"
  let ?ev = "\<lparr>chat_id = 100, message_text = Some (ascii ''a deal'')\<rparr>"
  have stop: "\<not> contains_stop_words ascii_lower scenario_config (ascii ''a deal'')"
    by (simp add: scenario_simps)
  have key: "any_key_word ascii_lower scenario_config (remove_spaces (ascii_lower (ascii ''a deal'')))"
    by (simp add: scenario_simps)
  have raised: "raised (try_body ascii_lower scenario_config fuzz_ratio ?e ?ev []) = Some ''FloodWaitError''"
    and branch: "branch (try_body ascii_lower scenario_config fuzz_ratio ?e ?ev []) = ForwardToPrimaryDestination"
    using stop key
    by (simp_all add: ascii_def try_body_def remove_old_messages_def is_similar_def forward_then_def)
  have dest: "DESTINATION scenario_config = PyInt 200"
    by (simp add: ascii_def scenario_config_def)
  from errors_caught_with_cooldown [where lower = ascii_lower and cfg = scenario_config
      and ratio = fuzz_ratio and e = ?e and ev = ?ev and store = "[]"
      and ex = "''FloodWaitError''" and steps = "[]"]
    raised branch dest
  show ?thesis by (simp add: ascii_def handler_branch)
qed

subsection \<open>C8\<close>

text \<open>
  C8. The script at a \<^verbatim>\<open>config.py\<close> that lacks a value. With \<open>API_ID = None\<close> the
  construction of the client at line 13 ends the script with Telethon's error, which does
  not hold the name \<open>API_ID\<close>; with \<open>STOP_WORDS = None\<close> the set comprehension of line 25
  ends it with a \<open>TypeError\<close>. In both cases \<open>validate_config\<close>, which would have raised the
  error that names the variable, is not reached. With an empty \<open>KEY_WORDS\<close> list the
  module loads and \<open>validate_config\<close> ends the script with the error naming \<open>KEY_WORDS\<close>.
\<close>

theorem validation_reached_too_late:
  "script ascii_lower fuzz_ratio api_check (scenario_py(''API_ID'' \<mapsto> PyNone))
      [(\<lparr>now_sweep = 5, now_admit = 6, forward_raises = None\<rparr>,
        \<lparr>chat_id = 100, message_text = Some (ascii ''a deal'')\<rparr>)]
     = Inl (ValueError telethon_message)
   \<and> \<not> sublist ''API_ID'' telethon_message
   \<and> validate_config (scenario_config\<lparr>API_ID := PyNone\<rparr>)
       = Inl (ValueError (config_error_message ''API_ID''))
   \<and> script ascii_lower fuzz_ratio api_check (scenario_py(''STOP_WORDS'' \<mapsto> PyNone))
      [(\<lparr>now_sweep = 5, now_admit = 6, forward_raises = None\<rparr>,
        \<lparr>chat_id = 100, message_text = Some (ascii ''a deal'')\<rparr>)]
     = Inl (TypeError ([CHR 0x27] @ ''NoneType'' @ [CHR 0x27] @ '' object is not iterable''))
   \<and> validate_config (scenario_config\<lparr>STOP_WORDS := []\<rparr>)
       = Inl (ValueError (config_error_message ''STOP_WORDS''))
   \<and> script ascii_lower fuzz_ratio api_check (scenario_py(''KEY_WORDS'' \<mapsto> PyList []))
      [(\<lparr>now_sweep = 5, now_admit = 6, forward_raises = None\<rparr>,
        \<lparr>chat_id = 100, message_text = Some (ascii ''a deal'')\<rparr>)]
     = Inl (ValueError (config_error_message ''KEY_WORDS''))"
proof -
  let ?steps = "[(\<lparr>now_sweep = 5, now_admit = 6, forward_raises = None\<rparr>,
        \<lparr>chat_id = 100, message_text = Some (ascii ''a deal'')\<rparr>)]"
  have api: "script ascii_lower fuzz_ratio api_check (scenario_py(''API_ID'' \<mapsto> PyNone)) ?steps
      = Inl (ValueError telethon_message)"
    by (simp add: script_def load_module_def import_name_def scenario_py_def api_check_def ascii_def)
  have unnamed: "\<not> sublist ''API_ID'' telethon_message"
    by (simp add: telethon_message_def sublist_code)
  have would_api: "validate_config (scenario_config\<lparr>API_ID := PyNone\<rparr>)
       = Inl (ValueError (config_error_message ''API_ID''))"
    by (simp add: validate_config_def required_globals_def scenario_config_def)
  have stop: "script ascii_lower fuzz_ratio api_check (scenario_py(''STOP_WORDS'' \<mapsto> PyNone)) ?steps
      = Inl (TypeError ([CHR 0x27] @ ''NoneType'' @ [CHR 0x27] @ '' object is not iterable''))"
    by (simp add: script_def load_module_def import_name_def scenario_py_def api_check_def
        not_iterable_def ascii_def)
  have would_stop: "validate_config (scenario_config\<lparr>STOP_WORDS := []\<rparr>)
       = Inl (ValueError (config_error_message ''STOP_WORDS''))"
    by (simp add: validate_config_def required_globals_def scenario_config_def ascii_def)
  have key: "script ascii_lower fuzz_ratio api_check (scenario_py(''KEY_WORDS'' \<mapsto> PyList [])) ?steps
      = Inl (ValueError (config_error_message ''KEY_WORDS''))"
    by (simp add: script_def load_module_def import_name_def scenario_py_def api_check_def
        validate_config_def required_globals_def ascii_def)
  from api unnamed would_api stop would_stop key show ?thesis by blast
qed

subsection \<open>C9\<close>

text \<open>
  C9. Two messages that arrive together, both with the key phrase, no stop phrase, and a
  score below 90 against each other. Each call forwards to the primary destination and
  then sleeps 2 seconds, but the sleep suspends only its own call: the second call starts
  while the first waits for its forward, so the program's order of effects has the second
  forward before any sleep, and nothing separates the two forwards.
\<close>

theorem second_forward_not_delayed:
  "map branch (run ascii_lower scenario_config fuzz_ratio
      [(\<lparr>now_sweep = 5, now_admit = 6, forward_raises = None\<rparr>,
        \<lparr>chat_id = 100, message_text = Some (ascii ''a deal'')\<rparr>),
       (\<lparr>now_sweep = 7, now_admit = 8, forward_raises = None\<rparr>,
        \<lparr>chat_id = 100, message_text = Some (ascii ''b deal'')\<rparr>)] [])
     = [ForwardToPrimaryDestination, ForwardToPrimaryDestination]
   \<and> map effects (run ascii_lower scenario_config fuzz_ratio
      [(\<lparr>now_sweep = 5, now_admit = 6, forward_raises = None\<rparr>,
        \<lparr>chat_id = 100, message_text = Some (ascii ''a deal'')\<rparr>),
       (\<lparr>now_sweep = 7, now_admit = 8, forward_raises = None\<rparr>,
        \<lparr>chat_id = 100, message_text = Some (ascii ''b deal'')\<rparr>)] [])
     = [[Log (Received 100),
         ForwardMessages (PyInt 200) \<lparr>chat_id = 100, message_text = Some (ascii ''a deal'')\<rparr>,
         Log (Forwarded (ascii ''a deal'')), Sleep 2],
        [Log (Received 100),
         ForwardMessages (PyInt 200) \<lparr>chat_id = 100, message_text = Some (ascii ''b deal'')\<rparr>,
         Log (Forwarded (ascii ''b deal'')), Sleep 2]]
   \<and> interleaved
        [Log (Received 100),
         ForwardMessages (PyInt 200) \<lparr>chat_id = 100, message_text = Some (ascii ''a deal'')\<rparr>,
         Log (Forwarded (ascii ''a deal'')), Sleep 2]
        [Log (Received 100),
         ForwardMessages (PyInt 200) \<lparr>chat_id = 100, message_text = Some (ascii ''b deal'')\<rparr>,
         Log (Forwarded (ascii ''b deal'')), Sleep 2]
        [Log (Received 100),
         ForwardMessages (PyInt 200) \<lparr>chat_id = 100, message_text = Some (ascii ''a deal'')\<rparr>,
         Log (Received 100),
         ForwardMessages (PyInt 200) \<lparr>chat_id = 100, message_text = Some (ascii ''b deal'')\<rparr>,
         Log (Forwarded (ascii ''a deal'')), Sleep 2,
         Log (Forwarded (ascii ''b deal'')), Sleep 2]"
proof -
  let ?e1 = "\<lparr>now_sweep = 5, now_admit = 6, forward_raises = None\<rparr>"
  let ?e2 = "\<lparr>now_sweep = 7, now_admit = 8, forward_raises = None\<rparr>"
  let ?ev1 = "\<lparr>chat_id = 100, message_text = Some (ascii ''a deal'')\<rparr>"
  let ?ev2 = "\<lparr>chat_id = 100, message_text = Some (ascii ''b deal'')\<rparr>"
  have stop: "\<not> contains_stop_words ascii_lower scenario_config (ascii ''a deal'')"
    "\<not> contains_stop_words ascii_lower scenario_config (ascii ''b deal'')"
    by (simp_all add: scenario_simps)
  have key: "any_key_word ascii_lower scenario_config (remove_spaces (ascii_lower (ascii ''a deal'')))"
    "any_key_word ascii_lower scenario_config (remove_spaces (ascii_lower (ascii ''b deal'')))"
    by (simp_all add: scenario_simps)
  have nonempty: "ascii ''a deal'' \<noteq> []" "ascii ''b deal'' \<noteq> []"
    by (simp_all add: ascii_def)
  have sim1: "\<not> is_similar fuzz_ratio (remove_old_messages 5 []) (ascii ''a deal'')"
    by (simp add: remove_old_messages_def is_similar_def)
  have sweep: "remove_old_messages 7 [(ascii ''a deal'', 6)] = [(ascii ''a deal'', 6)]"
    by (simp add: remove_old_messages_def FILTER_DURATION_def)
  have sim2: "\<not> is_similar fuzz_ratio [(ascii ''a deal'', 6)] (ascii ''b deal'')"
    by (simp add: is_similar_def fuzz_ratio_def indel_distance_def SIMILARITY_THRESHOLD_def
        ascii_def)
  have dest: "DESTINATION scenario_config = PyInt 200"
    by (simp add: scenario_config_def)
  have r1: "new_message_handler ascii_lower scenario_config fuzz_ratio ?e1 ?ev1 []
      = \<lparr>branch = ForwardToPrimaryDestination, store_after = [(ascii ''a deal'', 6)],
         effects = [Log (Received 100), ForwardMessages (PyInt 200) ?ev1,
                    Log (Forwarded (ascii ''a deal'')), Sleep 2],
         raised = None\<rparr>"
    using handler_primary [where lower = ascii_lower and cfg = scenario_config
        and ratio = fuzz_ratio and t = "ascii ''a deal''" and e = ?e1 and ev = ?ev1
        and store = "[]"] stop key nonempty sim1 dest
    by (simp add: remove_old_messages_def)
  have r2: "new_message_handler ascii_lower scenario_config fuzz_ratio ?e2 ?ev2
        [(ascii ''a deal'', 6)]
      = \<lparr>branch = ForwardToPrimaryDestination,
         store_after = [(ascii ''a deal'', 6), (ascii ''b deal'', 8)],
         effects = [Log (Received 100), ForwardMessages (PyInt 200) ?ev2,
                    Log (Forwarded (ascii ''b deal'')), Sleep 2],
         raised = None\<rparr>"
    using handler_primary [where lower = ascii_lower and cfg = scenario_config
        and ratio = fuzz_ratio and t = "ascii ''b deal''" and e = ?e2 and ev = ?ev2
        and store = "[(ascii ''a deal'', 6)]"] stop key nonempty sim2 sweep dest
    by (simp add: ascii_def)
  have run: "run ascii_lower scenario_config fuzz_ratio [(?e1, ?ev1), (?e2, ?ev2)] []
      = [new_message_handler ascii_lower scenario_config fuzz_ratio ?e1 ?ev1 [],
         new_message_handler ascii_lower scenario_config fuzz_ratio ?e2 ?ev2
           [(ascii ''a deal'', 6)]]"
    by (simp add: Let_def r1)
  have order: "interleaved
        [Log (Received 100), ForwardMessages (PyInt 200) ?ev1,
         Log (Forwarded (ascii ''a deal'')), Sleep 2]
        [Log (Received 100), ForwardMessages (PyInt 200) ?ev2,
         Log (Forwarded (ascii ''b deal'')), Sleep 2]
        [Log (Received 100), ForwardMessages (PyInt 200) ?ev1,
         Log (Received 100), ForwardMessages (PyInt 200) ?ev2,
         Log (Forwarded (ascii ''a deal'')), Sleep 2,
         Log (Forwarded (ascii ''b deal'')), Sleep 2]"
    by (simp add: ascii_def)
  from run r1 r2 order show ?thesis by simp
qed

subsection \<open>C10\<close>

text \<open>
  C10. For a symmetric score, in every store that the handler builds from the empty one
  any two different stored texts score below 90 against each other.
\<close>

theorem stored_texts_pairwise_dissimilar:
  assumes "\<forall>a b. ratio a b = ratio b a"
  shows "\<forall>s \<in> fst ` set (run_store lower cfg ratio steps []).
           \<forall>t \<in> fst ` set (run_store lower cfg ratio steps []). s \<noteq> t \<longrightarrow> ratio s t < 90"
proof -
  have "pairwise_dissimilar ratio (run_store lower cfg ratio steps [])"
  proof (rule run_store_invariant)
    show "pairwise_dissimilar ratio []" by (simp add: pairwise_dissimilar_def)
  qed (rule pairwise_dissimilar_handler [OF assms])
  then show ?thesis unfolding pairwise_dissimilar_def by blast
qed

theorem stored_texts_pairwise_dissimilar_witness:
  "run_store ascii_lower scenario_config fuzz_ratio
      [(\<lparr>now_sweep = 5, now_admit = 6, forward_raises = None\<rparr>,
        \<lparr>chat_id = 100, message_text = Some (ascii ''a deal'')\<rparr>),
       (\<lparr>now_sweep = 7, now_admit = 8, forward_raises = None\<rparr>,
        \<lparr>chat_id = 100, message_text = Some (ascii ''b deal'')\<rparr>)] []
     = [((ascii ''a deal''), 6), ((ascii ''b deal''), 8)]
   \<and> fuzz_ratio (ascii ''a deal'') (ascii ''b deal'') < 90 \<and> fuzz_ratio (ascii ''b deal'') (ascii ''a deal'') < 90"
proof -
  let ?steps = "[(\<lparr>now_sweep = 5, now_admit = 6, forward_raises = None\<rparr>,
        \<lparr>chat_id = 100, message_text = Some (ascii ''a deal'')\<rparr>),
       (\<lparr>now_sweep = 7, now_admit = 8, forward_raises = None\<rparr>,
        \<lparr>chat_id = 100, message_text = Some (ascii ''b deal'')\<rparr>)]"
  have sym: "\<forall>a b. fuzz_ratio a b = fuzz_ratio b a"
    using fuzz_ratio_sym by blast
  have stop: "\<not> contains_stop_words ascii_lower scenario_config (ascii ''a deal'')"
    "\<not> contains_stop_words ascii_lower scenario_config (ascii ''b deal'')"
    by (simp_all add: scenario_simps)
  have key: "any_key_word ascii_lower scenario_config (remove_spaces (ascii_lower (ascii ''a deal'')))"
    "any_key_word ascii_lower scenario_config (remove_spaces (ascii_lower (ascii ''b deal'')))"
    by (simp_all add: scenario_simps)
  have sim: "\<not> is_similar fuzz_ratio [((ascii ''a deal''), 6)] (ascii ''b deal'')"
    by (simp add: ascii_def is_similar_def fuzz_ratio_def indel_distance_def SIMILARITY_THRESHOLD_def)
  have sweep: "remove_old_messages 7 [((ascii ''a deal''), 6)] = [((ascii ''a deal''), 6)]"
    by (simp add: ascii_def remove_old_messages_def FILTER_DURATION_def)
  have run: "run_store ascii_lower scenario_config fuzz_ratio ?steps [] = [((ascii ''a deal''), 6), ((ascii ''b deal''), 8)]"
    using stop key sim sweep
    by (simp add: ascii_def new_message_handler_def try_body_def remove_old_messages_def is_similar_def
        forward_then_def)
  from stored_texts_pairwise_dissimilar [OF sym, where lower = ascii_lower
      and cfg = scenario_config and steps = ?steps] run
  show ?thesis by (simp add: ascii_def)
qed

end
